theory Spec2Isabelle
  imports Main "HOL-Library.Multiset"
begin

section \<open>Go string primitives used by the code\<close>

text \<open>
  Go strings are byte sequences; they are modelled as \<open>string\<close> (a list of \<open>char\<close>).
  The functions of this section are the parts of Go's standard library that the verified
  functions call: \<open>strings.Split\<close>, \<open>strings.SplitN\<close>, \<open>strings.Join\<close>,
  \<open>strings.HasPrefix\<close> and \<open>strconv.Atoi\<close>. The separators the code passes
  are single characters, so the separator is a \<open>char\<close>.
\<close>

text \<open>
  \<open>strings.Split(s, sep)\<close>: all substrings between separators. The result is never
  empty, so the last case of the second equation is never taken.
\<close>

fun Split :: "string \<Rightarrow> char \<Rightarrow> string list" where
  "Split [] sep = [[]]"
| "Split (x # xs) sep =
     (if x = sep then [] # Split xs sep
      else (case Split xs sep of
              w # ws \<Rightarrow> (x # w) # ws
            | [] \<Rightarrow> [[x]]))"

text \<open>
  \<open>strings.SplitN(s, sep, n)\<close> for \<open>n \<ge> 0\<close>: at most \<open>n\<close> substrings, the last
  one being the unsplit remainder; \<open>n = 0\<close> gives no substring at all.
\<close>

fun SplitN :: "string \<Rightarrow> char \<Rightarrow> nat \<Rightarrow> string list" where
  "SplitN s sep 0 = []"
| "SplitN s sep (Suc 0) = [s]"
| "SplitN s sep (Suc (Suc n)) =
     (if sep \<in> set s
      then takeWhile (\<lambda>c. c \<noteq> sep) s # SplitN (tl (dropWhile (\<lambda>c. c \<noteq> sep) s)) sep (Suc n)
      else [s])"

text \<open>\<open>strings.Join(elems, sep)\<close>.\<close>

fun Join :: "string list \<Rightarrow> string \<Rightarrow> string" where
  "Join [] sep = []"
| "Join [x] sep = x"
| "Join (x # y # ys) sep = x @ sep @ Join (y # ys) sep"

text \<open>\<open>strings.HasPrefix(s, prefix)\<close>.\<close>

definition HasPrefix :: "string \<Rightarrow> string \<Rightarrow> bool" where
  "HasPrefix s p = (take (length p) s = p)"

text \<open>
  \<open>strconv.Atoi\<close> on a 64-bit platform: an optional sign followed by at least one
  decimal digit; \<open>None\<close> stands for the syntax error and for the range error.
\<close>

definition is_digit :: "char \<Rightarrow> bool" where
  "is_digit c = (48 \<le> (of_char c :: nat) \<and> (of_char c :: nat) \<le> 57)"

definition digit_val :: "char \<Rightarrow> int" where
  "digit_val c = int (of_char c) - 48"

definition digits_val :: "string \<Rightarrow> int" where
  "digits_val ds = foldl (\<lambda>n c. n * 10 + digit_val c) 0 ds"

definition Atoi :: "string \<Rightarrow> int option" where
  "Atoi s =
     (let neg = (s \<noteq> [] \<and> hd s = CHR ''-'');
          ds = (if s \<noteq> [] \<and> (hd s = CHR ''-'' \<or> hd s = CHR ''+'') then tl s else s)
      in if ds = [] \<or> \<not> list_all is_digit ds then None
         else (let n = (if neg then - digits_val ds else digits_val ds)
               in if - (2 ^ 63) \<le> n \<and> n < 2 ^ 63 then Some n else None))"

section \<open>Sandbox bindings (package minijail)\<close>

text \<open>
  \<open>type WritableOption int\<close> with the constants \<open>ReadOnly = iota\<close> and
  \<open>ReadWrite\<close>: the type is Go's \<open>int\<close>, so a binding can carry any integer.
\<close>

type_synonym WritableOption = int

definition ReadOnly :: WritableOption where
  "ReadOnly = 0"

definition ReadWrite :: WritableOption where
  "ReadWrite = 1"

record Binding =
  Source :: string
  Target :: string
  Writable :: WritableOption

text \<open>
  The errors that the modelled functions return: the error of \<open>strconv.Atoi\<close>,
  \<open>Bad binding\<close>, an invalid environment key, \<open>os.ErrNotExist\<close> (the error for
  which \<open>os.IsNotExist\<close> holds), any other error of the operating system,
  \<open>cmdutils.ErrSilent\<close>, and the panic of an index out of range.
\<close>

datatype error =
    AtoiError
  | BadBinding string
  | InvalidEnvKey
  | ErrNotExist
  | OSError string
  | ErrSilent
  | IndexOutOfRange

text \<open>
  \<open>(b *Binding) String()\<close> first fills an empty \<open>Target\<close> with \<open>Source\<close>, in the
  receiver itself. \<open>fill_Target\<close> is the receiver after the call, \<open>Binding_String\<close>
  the string returned.
\<close>

definition fill_Target :: "Binding \<Rightarrow> Binding" where
  "fill_Target b = (if Target b = [] then b\<lparr>Target := Source b\<rparr> else b)"

definition Binding_String :: "Binding \<Rightarrow> string" where
  "Binding_String b0 =
     (let b = fill_Target b0
      in if Writable b = ReadWrite then Source b @ '','' @ Target b @ '',1''
         else if CHR '','' \<in> set (Source b) \<or> CHR '','' \<in> set (Target b)
              then Source b @ '','' @ Target b @ '',0''
         else if Source b \<noteq> Target b then Source b @ '','' @ Target b
         else Source b)"

definition BindingFromString :: "string \<Rightarrow> error + Binding" where
  "BindingFromString s =
     (case SplitN s (CHR '','') 3 of
        [t0] \<Rightarrow> Inr \<lparr>Source = t0, Target = t0, Writable = 0\<rparr>
      | [t0, t1] \<Rightarrow> Inr \<lparr>Source = t0, Target = t1, Writable = 0\<rparr>
      | [t0, t1, t2] \<Rightarrow>
          (case Atoi t2 of
             None \<Rightarrow> Inl AtoiError
           | Some writable \<Rightarrow> Inr \<lparr>Source = t0, Target = t1, Writable = writable\<rparr>)
      | _ \<Rightarrow> Inl (BadBinding s))"

section \<open>Environment lists (package envutil)\<close>

text \<open>
  Modelled from the spec: \<open>envutil.Getenv\<close> and \<open>envutil.Setenv\<close> (package
  \<open>util/envutil\<close> is not under src/; the callers under src/ are). The spec describes
  them as composing environment lists "with insert/override semantics": an environment is
  a list of \<open>KEY=VALUE\<close> strings, \<open>Getenv\<close> gives the value of a key (the empty
  string when the key is not set), and \<open>Setenv\<close> returns the list in which the key has
  the new value and no other entry, or an error for a key that cannot name a variable.
\<close>

definition Getenv :: "string list \<Rightarrow> string \<Rightarrow> string" where
  "Getenv env key =
     (case filter (\<lambda>e. HasPrefix e (key @ ''='')) env of
        [] \<Rightarrow> []
      | e # _ \<Rightarrow> drop (length key + 1) e)"

definition Setenv :: "string list \<Rightarrow> string \<Rightarrow> string \<Rightarrow> error + string list" where
  "Setenv env key val =
     (if key = [] \<or> CHR ''='' \<in> set key then Inl InvalidEnvKey
      else Inr (filter (\<lambda>e. \<not> HasPrefix e (key @ ''='')) env @ [key @ ''='' @ val]))"

section \<open>Passing bindings through the environment (package minijail)\<close>

definition BindingsEnvVarName :: string where
  "BindingsEnvVarName = ''CIFUZZ_MINIJAIL_BINDINGS''"

definition AddMinijailBindingToEnv :: "string list \<Rightarrow> Binding \<Rightarrow> error + string list" where
  "AddMinijailBindingToEnv env binding =
     (let bindings = Getenv env BindingsEnvVarName;
          bindings = (if bindings = [] then Binding_String binding
                      else bindings @ '':'' @ Binding_String binding)
      in Setenv env BindingsEnvVarName bindings)"

text \<open>
  A caller that adds several bindings applies \<open>AddMinijailBindingToEnv\<close> to each in
  turn and stops at the first error.
\<close>

fun AddMinijailBindingsToEnv :: "string list \<Rightarrow> Binding list \<Rightarrow> error + string list" where
  "AddMinijailBindingsToEnv env [] = Inr env"
| "AddMinijailBindingsToEnv env (b # bs) =
     (case AddMinijailBindingToEnv env b of
        Inl e \<Rightarrow> Inl e
      | Inr env' \<Rightarrow> AddMinijailBindingsToEnv env' bs)"

text \<open>
  \<open>NewMinijail\<close>, "Add additional bindings from the environment variable": the loop over
  \<open>strings.Split(additionalBindingsEnv, ":")\<close> that appends each parsed entry to
  \<open>bindings\<close>, skips empty entries and returns the first parse error.
\<close>

fun additionalBindings_loop :: "Binding list \<Rightarrow> string list \<Rightarrow> error + Binding list" where
  "additionalBindings_loop bindings [] = Inr bindings"
| "additionalBindings_loop bindings (s # ss) =
     (if s = [] then additionalBindings_loop bindings ss
      else (case BindingFromString s of
              Inl e \<Rightarrow> Inl e
            | Inr binding \<Rightarrow> additionalBindings_loop (bindings @ [binding]) ss))"

definition additionalBindings :: "Binding list \<Rightarrow> string \<Rightarrow> error + Binding list" where
  "additionalBindings bindings additionalBindingsEnv =
     additionalBindings_loop bindings (Split additionalBindingsEnv (CHR '':''))"

section \<open>Sanitizer options (package runner)\<close>

text \<open>
  Modelled from the spec: \<open>stringutil.JoinNonEmpty\<close> (package \<open>util/stringutil\<close> is
  not under src/): the elements that are not empty, joined with the separator, so that
  the merged options string holds \<open>k=v\<close> options only.
\<close>

definition JoinNonEmpty :: "string list \<Rightarrow> string \<Rightarrow> string" where
  "JoinNonEmpty elems sep = Join (filter (\<lambda>e. e \<noteq> []) elems) sep"

definition setDefaultIfNotSetAlready :: "string list \<Rightarrow> string \<Rightarrow> string \<Rightarrow> string list" where
  "setDefaultIfNotSetAlready options key val =
     (if list_ex (\<lambda>option. HasPrefix option (key @ ''='')) options then options
      else options @ [key @ ''='' @ val])"

text \<open>
  \<open>overrideOption\<close> overwrites the first option with the key's prefix in place and
  returns; it appends when the loop finds none.
\<close>

fun overrideOption :: "string list \<Rightarrow> string \<Rightarrow> string \<Rightarrow> string list" where
  "overrideOption [] key val = [key @ ''='' @ val]"
| "overrideOption (option # options) key val =
     (if HasPrefix option (key @ ''='') then (key @ ''='' @ val) # options
      else option # overrideOption options key val)"

text \<open>
  A Go \<open>map[string]string\<close> is given as the list of its entries (with distinct keys) in
  the order in which \<open>range\<close> yields them; Go leaves that order unspecified, so the
  properties below are stated for every order.
\<close>

definition SetSanitizerOptions ::
  "string \<Rightarrow> (string \<times> string) list \<Rightarrow> (string \<times> string) list \<Rightarrow> string" where
  "SetSanitizerOptions existingOptionsStr defaults overrides =
     (let options = Split existingOptionsStr (CHR '':'');
          options = foldl (\<lambda>options (key, val). setDefaultIfNotSetAlready options key val)
                      options defaults;
          options = foldl (\<lambda>options (key, val). overrideOption options key val)
                      options overrides
      in JoinNonEmpty options '':'')"

definition SetASANOptions ::
  "string list \<Rightarrow> (string \<times> string) list \<Rightarrow> (string \<times> string) list \<Rightarrow> error + string list" where
  "SetASANOptions env defaults overrides =
     (let options = Getenv env ''ASAN_OPTIONS'';
          options = SetSanitizerOptions options defaults overrides
      in Setenv env ''ASAN_OPTIONS'' options)"

text \<open>
  \<open>sanitizerOptionsColorValue\<close> asks whether stderr is a terminal; the answer is the
  parameter \<open>isTerminal\<close>.
\<close>

definition sanitizerOptionsColorValue :: "bool \<Rightarrow> string" where
  "sanitizerOptionsColorValue isTerminal = (if isTerminal then ''always'' else ''never'')"

definition defaultSanitizerOptions :: "bool \<Rightarrow> (string \<times> string) list" where
  "defaultSanitizerOptions isTerminal = [(''color'', sanitizerOptionsColorValue isTerminal)]"

text \<open>
  The two functions below build their maps from literals. The parameter \<open>rng\<close> is the
  order in which the runtime's \<open>range\<close> yields a map's entries: a permutation of them.
  \<open>strconv.Itoa(SanitizerErrorExitCode)\<close> is the string \<open>78\<close>.
\<close>

definition SetCommonASANOptions ::
  "((string \<times> string) list \<Rightarrow> (string \<times> string) list) \<Rightarrow> bool \<Rightarrow> string list
     \<Rightarrow> error + string list" where
  "SetCommonASANOptions rng isTerminal env =
     (let defaultOptions = defaultSanitizerOptions isTerminal;
          overrideOptions = [(''exitcode'', ''78''), (''log_path'', ''stderr'')]
      in SetASANOptions env (rng defaultOptions) (rng overrideOptions))"

definition SetCommonUBSANOptions ::
  "((string \<times> string) list \<Rightarrow> (string \<times> string) list) \<Rightarrow> bool \<Rightarrow> string list
     \<Rightarrow> error + string list" where
  "SetCommonUBSANOptions rng isTerminal env =
     (let defaultOptions = defaultSanitizerOptions isTerminal @ [(''print_stacktrace'', ''1'')];
          overrideOptions = [(''log_path'', ''stderr'')];
          options = Getenv env ''UBSAN_OPTIONS'';
          options = SetSanitizerOptions options (rng defaultOptions) (rng overrideOptions)
      in Setenv env ''UBSAN_OPTIONS'' options)"

text \<open>
  What a list of options, and an options string, say about a key: the values of the
  options \<open>key=value\<close> in it, in order. A key that is set once has exactly one value.
\<close>

definition values_of :: "string list \<Rightarrow> string \<Rightarrow> string list" where
  "values_of options key =
     map (drop (length key + 1)) (filter (\<lambda>option. HasPrefix option (key @ ''='')) options)"

definition option_values :: "string \<Rightarrow> string \<Rightarrow> string list" where
  "option_values optionsStr key = values_of (Split optionsStr (CHR '':'')) key"

section \<open>The CMake adapter's build directory (package cmake)\<close>

text \<open>
  \<open>filepath.Clean\<close> and \<open>filepath.Join\<close> of Go's standard library, on a Unix host.
  \<open>Clean\<close> works on the path's elements: empty elements and \<open>.\<close> are dropped, \<open>..\<close>
  removes the element before it, is dropped at the root and is kept at the start of a
  relative path; the empty result of a relative path is \<open>.\<close>. \<open>Join\<close> cleans the
  elements joined with \<open>/\<close>, starting at the first one that is not empty.
\<close>

definition clean_step :: "bool \<Rightarrow> string list \<Rightarrow> string \<Rightarrow> string list" where
  "clean_step rooted out elem =
     (if elem = [] \<or> elem = ''.'' then out
      else if elem = ''..'' then
        (if out \<noteq> [] \<and> last out \<noteq> ''..'' then butlast out
         else if rooted then out
         else out @ [''..''])
      else out @ [elem])"

definition Clean :: "string \<Rightarrow> string" where
  "Clean path =
     (if path = [] then ''.''
      else (let rooted = (hd path = CHR ''/'');
                out = Join (foldl (clean_step rooted) [] (Split path (CHR ''/''))) ''/''
            in if rooted then CHR ''/'' # out
               else if out = [] then ''.'' else out))"

fun filepath_Join :: "string list \<Rightarrow> string" where
  "filepath_Join [] = []"
| "filepath_Join (e # es) =
     (if e \<noteq> [] then Clean (Join (e # es) ''/'') else filepath_Join es)"

text \<open>
  \<open>cmake.BuilderOptions\<close>, with the fields that \<open>BuildDir\<close> reads (the others are the
  parallelism options, the output writers and \<open>FindRuntimeDeps\<close>).
\<close>

record BuilderOptions =
  ProjectDir :: string
  Engine :: string
  Sanitizers :: "string list"

definition BuildDir :: "BuilderOptions \<Rightarrow> string" where
  "BuildDir b =
     (let sanitizersSegment = Join (Sanitizers b) ''+'';
          sanitizersSegment = (if sanitizersSegment = [] then ''none'' else sanitizersSegment)
      in filepath_Join [ProjectDir b, ''.cifuzz-build'', Engine b, sanitizersSegment])"

text \<open>
  Vocabulary for stating the property: a path element that \<open>Clean\<close> keeps as it is, and
  an absolute path, other than the root, made of such elements.
\<close>

definition is_name :: "string \<Rightarrow> bool" where
  "is_name elem = (elem \<noteq> [] \<and> elem \<noteq> ''.'' \<and> elem \<noteq> ''..'' \<and> CHR ''/'' \<notin> set elem)"

definition is_clean_abs :: "string \<Rightarrow> bool" where
  "is_clean_abs path =
     (case Split path (CHR ''/'') of
        [] \<Rightarrow> False
      | root # elems \<Rightarrow> root = [] \<and> elems \<noteq> [] \<and> list_all is_name elems)"

section \<open>Counting corpus entries (package run)\<close>

text \<open>
  The part of the file system that \<open>filepath.WalkDir\<close> visits below a root: a file with
  its size in bytes, a directory with its entries, or a node that cannot be read (a
  directory whose \<open>ReadDir\<close> fails, or an entry whose \<open>Info\<close> fails) with the error.
  A file system maps a path to the error of \<open>Lstat\<close> or to the node at that path.
\<close>

datatype node =
    File nat
  | Dir "(string \<times> node) list"
  | Unreadable error

type_synonym filesystem = "string \<Rightarrow> error + node"

text \<open>
  The callback of \<open>countCorpusEntries\<close> run by \<open>WalkDir\<close> over a node: it returns an
  error as it gets it, which stops the walk; it passes over directories; it adds one to
  \<open>seedsInDir\<close> for a file whose size is not zero. \<open>seedsInDir\<close> is the second argument
  and the result. The counters are Go's \<open>uint\<close> (64 bits); a count of files stays far below
  \<open>2^64\<close>, so they are natural numbers here.
\<close>

fun walk :: "node \<Rightarrow> nat \<Rightarrow> error + nat"
  and walk_entries :: "(string \<times> node) list \<Rightarrow> nat \<Rightarrow> error + nat" where
  "walk (File sz) seedsInDir = Inr (if sz \<noteq> 0 then seedsInDir + 1 else seedsInDir)"
| "walk (Unreadable err) seedsInDir = Inl err"
| "walk (Dir entries) seedsInDir = walk_entries entries seedsInDir"
| "walk_entries [] seedsInDir = Inr seedsInDir"
| "walk_entries (entry # entries) seedsInDir =
     (case walk (snd entry) seedsInDir of
        Inl err \<Rightarrow> Inl err
      | Inr seedsInDir' \<Rightarrow> walk_entries entries seedsInDir')"

definition WalkDir :: "filesystem \<Rightarrow> string \<Rightarrow> nat \<Rightarrow> error + nat" where
  "WalkDir fs root seedsInDir =
     (case fs root of
        Inl err \<Rightarrow> Inl err
      | Inr d \<Rightarrow> walk d seedsInDir)"

fun countCorpusEntries_loop :: "filesystem \<Rightarrow> nat \<Rightarrow> string list \<Rightarrow> error + nat" where
  "countCorpusEntries_loop fs numSeeds [] = Inr numSeeds"
| "countCorpusEntries_loop fs numSeeds (dir # seedCorpusDirs) =
     (case WalkDir fs dir 0 of
        Inl err \<Rightarrow> (if err = ErrNotExist then Inr 0 else Inl err)
      | Inr seedsInDir \<Rightarrow> countCorpusEntries_loop fs (numSeeds + seedsInDir) seedCorpusDirs)"

definition countCorpusEntries :: "filesystem \<Rightarrow> string list \<Rightarrow> error + nat" where
  "countCorpusEntries fs seedCorpusDirs = countCorpusEntries_loop fs 0 seedCorpusDirs"

text \<open>
  What the count is to be, in the words of the specification: the number of files of
  non-zero size contained recursively in a directory.
\<close>

fun nonempty_files :: "node \<Rightarrow> nat" where
  "nonempty_files (File sz) = (if sz \<noteq> 0 then 1 else 0)"
| "nonempty_files (Unreadable err) = 0"
| "nonempty_files (Dir entries) = sum_list (map (\<lambda>entry. nonempty_files (snd entry)) entries)"

text \<open>A node below which every directory and file can be read.\<close>

fun readable :: "node \<Rightarrow> bool" where
  "readable (File sz) = True"
| "readable (Unreadable err) = False"
| "readable (Dir entries) = list_all (\<lambda>entry. readable (snd entry)) entries"

definition files_below :: "filesystem \<Rightarrow> string \<Rightarrow> nat" where
  "files_below fs dir = (case fs dir of Inl err \<Rightarrow> 0 | Inr d \<Rightarrow> nonempty_files d)"

section \<open>The process wrapper (process_wrapper.c)\<close>

text \<open>
  \<open>argv\<close> is the list of the \<open>argc\<close> argument strings; the C array has one more
  element, \<open>argv[argc]\<close>, which is the null pointer. \<open>argv_at\<close> reads \<open>argv[i]\<close> for
  \<open>i \<le> argc\<close>, with \<open>None\<close> for the null pointer.
\<close>

definition argv_at :: "string list \<Rightarrow> nat \<Rightarrow> string option" where
  "argv_at argv i = (if i < length argv then Some (argv ! i) else None)"

text \<open>
  The system calls that \<open>main\<close> makes, in order, and how it ends: it returns a status, or
  \<open>execv\<close> succeeds and the target runs in its place. The host is given by \<open>chdir\<close> and
  \<open>execv\<close>, which say whether the call succeeds; \<open>execv\<close> with a null path fails.
\<close>

datatype syscall =
    SysChdir "string option"
  | SysExecv "string option" "string list"

datatype ending = Return nat | TargetRuns

definition process_wrapper_main ::
  "(string \<Rightarrow> bool) \<Rightarrow> (string \<Rightarrow> string list \<Rightarrow> bool) \<Rightarrow> string list
     \<Rightarrow> syscall list \<times> ending" where
  "process_wrapper_main chdir execv argv =
     (if length argv < 3 then ([], Return 1)
      else if \<not> (case argv_at argv 1 of None \<Rightarrow> False | Some dir \<Rightarrow> chdir dir)
        then ([SysChdir (argv_at argv 1)], Return 1)
      else if \<not> (case argv_at argv 3 of None \<Rightarrow> False | Some path \<Rightarrow> execv path (drop 3 argv))
        then ([SysChdir (argv_at argv 1), SysExecv (argv_at argv 3) (drop 3 argv)], Return 1)
      else ([SysChdir (argv_at argv 1), SysExecv (argv_at argv 3) (drop 3 argv)], TargetRuns))"

section \<open>Composing the sandbox bindings (package minijail, config-file variant)\<close>

text \<open>
  The host as \<open>NewMinijail\<close> sees it: the results of the calls that it makes to the
  operating system and to \<open>runfiles.Finder\<close>. A directory entry has a name, says
  whether it is a directory, and gives its file info or an error; a file info is the
  identity of the file, which is what \<open>os.SameFile\<close> compares.
\<close>

record DirEntry =
  Name :: string
  IsDir :: bool
  Info :: "error + nat"

record host =
  EvalSymlinks :: "string \<Rightarrow> error + string"
  MkdirTemp :: "error + string"
  MkdirAll :: "string \<Rightarrow> error option"
  Minijail0Path :: "error + string"
  ReadDir :: "string \<Rightarrow> error + DirEntry list"
  Stat :: "string \<Rightarrow> error + nat"
  Getwd :: "error + string"
  ProcessWrapperPath :: "error + string"

record Options =
  Args :: "string list"
  Bindings :: "Binding list"
  OutputDir :: string

text \<open>Go's \<open>if err != nil { return nil, err }\<close> after a call with and without a value.\<close>

definition and_then :: "error + 'a \<Rightarrow> ('a \<Rightarrow> error + 'b) \<Rightarrow> error + 'b" where
  "and_then r f = (case r of Inl err \<Rightarrow> Inl err | Inr x \<Rightarrow> f x)"

definition check :: "error option \<Rightarrow> error + 'b \<Rightarrow> error + 'b" where
  "check r k = (case r of Some err \<Rightarrow> Inl err | None \<Rightarrow> k)"

definition defaultBindings :: "Binding list" where
  "defaultBindings =
     [\<lparr>Source = ''/dev/null'', Target = [], Writable = ReadWrite\<rparr>,
      \<lparr>Source = ''/dev/urandom'', Target = [], Writable = ReadWrite\<rparr>]"

text \<open>
  The loop over the entries of \<open>/tmp\<close>: entries that are not directories, whose info
  cannot be read, or that are the chroot directory itself are passed over; each other
  entry appends \<open>&Binding{Source: "/tmp" + entry.Name()}\<close>.
\<close>

fun tmpBindings :: "nat \<Rightarrow> DirEntry list \<Rightarrow> Binding list \<Rightarrow> Binding list" where
  "tmpBindings chrootDirFileInfo [] bindings = bindings"
| "tmpBindings chrootDirFileInfo (entry # entries) bindings =
     (if \<not> IsDir entry then tmpBindings chrootDirFileInfo entries bindings
      else (case Info entry of
              Inl err \<Rightarrow> tmpBindings chrootDirFileInfo entries bindings
            | Inr fileInfo \<Rightarrow>
                if fileInfo = chrootDirFileInfo
                then tmpBindings chrootDirFileInfo entries bindings
                else tmpBindings chrootDirFileInfo entries
                       (bindings @ [\<lparr>Source = ''/tmp'' @ Name entry, Target = [],
                                     Writable = ReadOnly\<rparr>])))"

text \<open>
  \<open>NewMinijail\<close> up to the point where \<open>bindings\<close> is complete (the binding for the
  process wrapper has been appended): the value of \<open>bindings\<close> there, or the error that
  made the function return before. \<open>opts.Args[0]\<close> panics for an empty \<open>Args\<close>.
\<close>

definition NewMinijail_bindings :: "host \<Rightarrow> Options \<Rightarrow> error + Binding list" where
  "NewMinijail_bindings h opts =
     (case Args opts of
        [] \<Rightarrow> Inl IndexOutOfRange
      | arg0 # _ \<Rightarrow>
     and_then (EvalSymlinks h arg0) (\<lambda>path.
     and_then (MkdirTemp h) (\<lambda>chrootDir.
     check (MkdirAll h (filepath_Join [chrootDir, ''/proc''])) (
     check (MkdirAll h (filepath_Join [chrootDir, ''/tmp''])) (
     check (MkdirAll h (filepath_Join [chrootDir, ''dev'', ''shm''])) (
     and_then (Minijail0Path h) (\<lambda>minijailPath.
     and_then (ReadDir h ''/tmp'') (\<lambda>entries.
     and_then (Stat h chrootDir) (\<lambda>chrootDirFileInfo.
       (let bindings = tmpBindings chrootDirFileInfo entries [];
            bindings = bindings @ Bindings opts;
            bindings = bindings @ defaultBindings;
            bindings = (if OutputDir opts \<noteq> []
                        then bindings @ [\<lparr>Source = OutputDir opts, Target = [],
                                           Writable = ReadWrite\<rparr>]
                        else bindings)
        in and_then (Getwd h) (\<lambda>workdir.
             (let bindings = bindings @ [\<lparr>Source = workdir, Target = [], Writable = ReadWrite\<rparr>];
                  bindings = bindings @ [\<lparr>Source = path, Target = [], Writable = ReadOnly\<rparr>]
              in and_then (ProcessWrapperPath h) (\<lambda>processWrapperPath.
                   Inr (bindings @ [\<lparr>Source = processWrapperPath, Target = [],
                                     Writable = ReadOnly\<rparr>]))))))))))))))"

text \<open>
  The entries of \<open>/tmp\<close> that get a binding: the subdirectories whose info can be read
  and that are not the chroot directory.
\<close>

definition is_tmp_subdir :: "nat \<Rightarrow> DirEntry \<Rightarrow> bool" where
  "is_tmp_subdir chrootDirFileInfo entry =
     (IsDir entry \<and> (case Info entry of Inl err \<Rightarrow> False
                        | Inr fileInfo \<Rightarrow> fileInfo \<noteq> chrootDirFileInfo))"

text \<open>Two hosts on which every call succeeds, without and with entries in \<open>/tmp\<close>.\<close>

definition host_empty_tmp :: host where
  "host_empty_tmp =
     \<lparr>EvalSymlinks = (\<lambda>p. Inr p), MkdirTemp = Inr ''/tmp/minijail-chroot-1'',
      MkdirAll = (\<lambda>p. None), Minijail0Path = Inr ''/opt/cifuzz/bin/minijail0'',
      ReadDir = (\<lambda>p. Inr []), Stat = (\<lambda>p. Inr 9), Getwd = Inr ''/work'',
      ProcessWrapperPath = Inr ''/opt/cifuzz/lib/process_wrapper''\<rparr>"

definition host_with_tmp :: host where
  "host_with_tmp =
     host_empty_tmp\<lparr>ReadDir := (\<lambda>p.
        Inr [\<lparr>Name = ''minijail-chroot-1'', IsDir = True, Info = Inr 9\<rparr>,
             \<lparr>Name = ''pidfile'', IsDir = False, Info = Inr 4\<rparr>,
             \<lparr>Name = ''proj'', IsDir = True, Info = Inr 5\<rparr>])\<rparr>"

section \<open>The Maven adapter (package maven)\<close>

text \<open>
  \<open>build.Result\<close> (declared in \<open>internal/build\<close>, which is not under src/): the fields
  that the Maven adapter sets. Its \<open>Executable\<close>, \<open>Engine\<close> and \<open>Sanitizers\<close> keep
  their zero values. The field names carry the prefix \<open>Result_\<close>.
\<close>

record Result =
  Result_Name :: string
  Result_BuildDir :: string
  Result_ProjectDir :: string
  Result_GeneratedCorpus :: string
  Result_SeedCorpus :: string
  Result_RuntimeDeps :: "string list"

record ParallelOptions =
  Enabled :: bool
  NumJobs :: nat

text \<open>
  The project as \<open>parseXML\<close> reads it from the output of \<open>mvn help:evaluate\<close>: the
  output directories and the directories of the resources and test resources.
\<close>

record MavenProject =
  OutputDirectory :: string
  TestOutputDirectory :: string
  Resources :: "string list"
  TestResources :: "string list"

text \<open>
  What is outside the adapter: \<open>run_mvn args\<close> runs \<open>mvn\<close> with these arguments in the
  project directory and gives its standard output, or an error when it fails;
  \<open>TempDir\<close> is the result of \<open>os.MkdirTemp\<close>, \<open>ReadFile\<close> of \<open>os.ReadFile\<close>;
  \<open>parseXML\<close>, \<open>JazzerSeedCorpus\<close> and \<open>JazzerGeneratedCorpus\<close> are functions of
  packages that are not under src/ and are taken as they are.
\<close>

record maven_world =
  run_mvn :: "string list \<Rightarrow> error + string"
  TempDir :: "error + string"
  ReadFile :: "string \<Rightarrow> error + string"
  parseXML :: "string \<Rightarrow> error + MavenProject"
  JazzerSeedCorpus :: "string \<Rightarrow> string \<Rightarrow> string"
  JazzerGeneratedCorpus :: "string \<Rightarrow> string \<Rightarrow> string"

text \<open>\<open>fmt.Sprint\<close> of a \<open>uint\<close>: its decimal digits.\<close>

fun Sprint :: "nat \<Rightarrow> string" where
  "Sprint n = (if n < 10 then [char_of (48 + n)] else Sprint (n div 10) @ [char_of (48 + n mod 10)])"

text \<open>
  \<open>strings.TrimSpace\<close> removes the leading and the trailing white space of a string, as
  \<open>unicode.IsSpace\<close> defines it. A string is a sequence of bytes in UTF-8;
  \<open>space_runes\<close> lists the encodings of the white-space code points: the six of ASCII,
  U+0085, U+00A0, U+1680, U+2000 to U+200A, U+2028, U+2029, U+202F, U+205F and U+3000.
  \<open>trim_runes\<close> removes bytes from the front for as long as one of the given sequences
  is a prefix; the trailing white space is removed in the same way from the reversed
  string. Bytes that do not decode stand for U+FFFD, which is no white space, and stay.
\<close>

definition space_runes :: "string list" where
  "space_runes =
     [[CHR 0x09], [CHR 0x0A], [CHR 0x0B], [CHR 0x0C], [CHR 0x0D], [CHR 0x20],
      [CHR 0xC2, CHR 0x85], [CHR 0xC2, CHR 0xA0],
      [CHR 0xE1, CHR 0x9A, CHR 0x80],
      [CHR 0xE2, CHR 0x80, CHR 0x80], [CHR 0xE2, CHR 0x80, CHR 0x81],
      [CHR 0xE2, CHR 0x80, CHR 0x82], [CHR 0xE2, CHR 0x80, CHR 0x83],
      [CHR 0xE2, CHR 0x80, CHR 0x84], [CHR 0xE2, CHR 0x80, CHR 0x85],
      [CHR 0xE2, CHR 0x80, CHR 0x86], [CHR 0xE2, CHR 0x80, CHR 0x87],
      [CHR 0xE2, CHR 0x80, CHR 0x88], [CHR 0xE2, CHR 0x80, CHR 0x89],
      [CHR 0xE2, CHR 0x80, CHR 0x8A],
      [CHR 0xE2, CHR 0x80, CHR 0xA8], [CHR 0xE2, CHR 0x80, CHR 0xA9],
      [CHR 0xE2, CHR 0x80, CHR 0xAF],
      [CHR 0xE2, CHR 0x81, CHR 0x9F],
      [CHR 0xE3, CHR 0x80, CHR 0x80]]"

function trim_runes :: "string list \<Rightarrow> string \<Rightarrow> string" where
  "trim_runes runes s =
     (case filter (\<lambda>r. r \<noteq> [] \<and> HasPrefix s r) runes of
        [] \<Rightarrow> s
      | r # _ \<Rightarrow> trim_runes runes (drop (length r) s))"
  by pat_completeness auto
termination
proof (relation "measure (\<lambda>(runes, s). length s)")
  show "wf (measure (\<lambda>(runes, s). length s))" by simp
next
  fix runes :: "string list" and s r :: string and rs :: "string list"
  assume "filter (\<lambda>r. r \<noteq> [] \<and> HasPrefix s r) runes = r # rs"
  then have "r \<in> set (filter (\<lambda>r. r \<noteq> [] \<and> HasPrefix s r) runes)" by simp
  then have "r \<noteq> []" and "take (length r) s = r" by (simp_all add: HasPrefix_def)
  then have "s \<noteq> []" by auto
  with \<open>r \<noteq> []\<close> show "((runes, drop (length r) s), (runes, s)) \<in> measure (\<lambda>(runes, s). length s)"
    by simp
qed

declare trim_runes.simps [simp del]

definition TrimSpace :: "string \<Rightarrow> string" where
  "TrimSpace s = rev (trim_runes (map rev space_runes) (rev (trim_runes space_runes s)))"

text \<open>
  \<open>runMaven\<close> adds the profile flag, runs \<open>mvn\<close> and returns \<open>cmdutils.ErrSilent\<close> when
  it fails; the value is what \<open>mvn\<close> wrote to the \<open>stdout\<close> writer.
\<close>

definition runMaven :: "maven_world \<Rightarrow> string list \<Rightarrow> error + string" where
  "runMaven w args =
     (case run_mvn w (args @ [''-Pcifuzz'']) of
        Inl err \<Rightarrow> Inl ErrSilent
      | Inr out \<Rightarrow> Inr out)"

definition getExternalDependencies :: "maven_world \<Rightarrow> error + string list" where
  "getExternalDependencies w =
     and_then (TempDir w) (\<lambda>tempDir.
       (let outputPath = filepath_Join [tempDir, ''cp''];
            outputFlag = ''-Dmdep.outputFile='' @ outputPath;
            args = [''dependency:build-classpath'', outputFlag]
        in and_then (runMaven w args) (\<lambda>_.
           and_then (ReadFile w outputPath) (\<lambda>output.
             Inr (Split (TrimSpace output) (CHR '':''))))))"

definition getLocalDependencies :: "maven_world \<Rightarrow> error + string list" where
  "getLocalDependencies w =
     (let args = [''help:evaluate'', ''-Dexpression=project'', ''-DforceStdout'', ''--quiet'']
      in and_then (runMaven w args) (\<lambda>stdout.
         and_then (parseXML w stdout) (\<lambda>project.
           (let localDeps = [OutputDirectory project, TestOutputDirectory project];
                localDeps = localDeps @ Resources project;
                localDeps = localDeps @ TestResources project
            in Inr localDeps))))"

definition GetBuildDirectory :: "maven_world \<Rightarrow> string \<Rightarrow> error + string" where
  "GetBuildDirectory w projectDir =
     (case run_mvn w [''help:evaluate'', ''-Dexpression=project.build.directory'', ''--quiet'',
                      ''-DforceStdout''] of
        Inl err \<Rightarrow> Inl ErrSilent
      | Inr output \<Rightarrow> Inr output)"

definition maven_Build ::
  "maven_world \<Rightarrow> string \<Rightarrow> ParallelOptions \<Rightarrow> string \<Rightarrow> error + Result" where
  "maven_Build w projectDir parallel targetClass =
     (let flags = (if Enabled parallel
                   then [''-T''] @ (if NumJobs parallel \<noteq> 0 then [Sprint (NumJobs parallel)]
                                    else [''1C''])
                   else []);
          args = flags @ [''test-compile'']
      in and_then (runMaven w args) (\<lambda>_.
         and_then (getExternalDependencies w) (\<lambda>deps.
         and_then (getLocalDependencies w) (\<lambda>localDeps.
           (let deps = deps @ localDeps;
                seedCorpus = JazzerSeedCorpus w targetClass projectDir;
                generatedCorpus = JazzerGeneratedCorpus w targetClass projectDir
            in and_then (GetBuildDirectory w projectDir) (\<lambda>buildDir.
                 Inr \<lparr>Result_Name = targetClass,
                      Result_BuildDir = buildDir,
                      Result_ProjectDir = projectDir,
                      Result_GeneratedCorpus = generatedCorpus,
                      Result_SeedCorpus = seedCorpus,
                      Result_RuntimeDeps = deps\<rparr>))))))"

text \<open>
  A symlink-free path: neither the path itself nor one of its leading directories is one
  of the symbolic links of the host.
\<close>

definition symlink_free :: "string list \<Rightarrow> string \<Rightarrow> bool" where
  "symlink_free links path =
     list_all (\<lambda>link. path \<noteq> link \<and> \<not> HasPrefix path (link @ ''/'')) links"

text \<open>
  A host where the local repository \<open>/home/u/.m2\<close> and the directory \<open>/home/u/build\<close>,
  which the project's \<open>pom.xml\<close> names as its build directory, are symbolic links.
\<close>

definition symlinked_links :: "string list" where
  "symlinked_links = [''/home/u/.m2'', ''/home/u/build'']"

definition symlinked_world :: maven_world where
  "symlinked_world =
     \<lparr>run_mvn = (\<lambda>args.
        if args = [''help:evaluate'', ''-Dexpression=project.build.directory'', ''--quiet'',
                   ''-DforceStdout'']
        then Inr ''/home/u/build/proj'' else Inr []),
      TempDir = Inr ''/tmp/cifuzz-maven-dependencies-1'',
      ReadFile = (\<lambda>path.
        if path = ''/tmp/cifuzz-maven-dependencies-1/cp''
        then Inr (''/home/u/.m2/repository/jazzer.jar:/home/u/.m2/repository/junit.jar'' @ [CHR 0x0A])
        else Inl ErrNotExist),
      parseXML = (\<lambda>xml. Inr \<lparr>OutputDirectory = ''/home/u/build/proj/classes'',
                               TestOutputDirectory = ''/home/u/build/proj/test-classes'',
                               Resources = [''/home/u/proj/src/main/resources''],
                               TestResources = [''/home/u/proj/src/test/resources'']\<rparr>),
      JazzerSeedCorpus = (\<lambda>targetClass projectDir. projectDir @ ''/src/test/resources/'' @ targetClass @ ''Inputs''),
      JazzerGeneratedCorpus = (\<lambda>targetClass projectDir. projectDir @ ''/.cifuzz-corpus/'' @ targetClass)\<rparr>"

section \<open>Properties\<close>

subsection \<open>Facts about the string primitives\<close>

lemma takeWhile_sep: "c \<notin> set a \<Longrightarrow> takeWhile (\<lambda>x. x \<noteq> c) (a @ c # r) = a"
  by (induction a) auto

lemma dropWhile_sep: "c \<notin> set a \<Longrightarrow> dropWhile (\<lambda>x. x \<noteq> c) (a @ c # r) = c # r"
  by (induction a) auto

lemma SplitN_none: "sep \<notin> set s \<Longrightarrow> SplitN s sep (Suc n) = [s]"
  by (cases n) auto

lemma SplitN_cons:
  "sep \<notin> set a \<Longrightarrow> SplitN (a @ sep # r) sep (Suc (Suc n)) = a # SplitN r sep (Suc n)"
  by (simp add: takeWhile_sep dropWhile_sep)

lemma three_Suc: "(3::nat) = Suc (Suc (Suc 0))"
  by simp

lemma SplitN3_one: "sep \<notin> set a \<Longrightarrow> SplitN a sep 3 = [a]"
  unfolding three_Suc by (rule SplitN_none)

lemma SplitN3_two:
  "sep \<notin> set a \<Longrightarrow> sep \<notin> set b \<Longrightarrow> SplitN (a @ sep # b) sep 3 = [a, b]"
  unfolding three_Suc by (simp add: SplitN_cons SplitN_none del: SplitN.simps)

lemma SplitN3_three:
  "sep \<notin> set a \<Longrightarrow> sep \<notin> set b \<Longrightarrow> SplitN (a @ sep # b @ sep # r) sep 3 = [a, b, r]"
  unfolding three_Suc by (simp add: SplitN_cons del: SplitN.simps(3))

lemma Atoi_0: "Atoi ''0'' = Some 0"
  by (simp add: Atoi_def is_digit_def digits_val_def digit_val_def)

lemma Atoi_1: "Atoi ''1'' = Some 1"
  by (simp add: Atoi_def is_digit_def digits_val_def digit_val_def)

subsection \<open>Bindings: serialisation and parsing\<close>

lemma fill_Target_fields:
  "Source (fill_Target b) = Source b"
  "Target (fill_Target b) = (if Target b = [] then Source b else Target b)"
  "Writable (fill_Target b) = Writable b"
  by (simp_all add: fill_Target_def)

lemma BindingFromString_String:
  assumes s: "CHR '','' \<notin> set (Source b)" and t0: "CHR '','' \<notin> set (Target b)"
    and w: "Writable b = ReadOnly \<or> Writable b = ReadWrite"
  shows "BindingFromString (Binding_String b) = Inr (fill_Target b)"
proof -
  define t where "t = (if Target b = [] then Source b else Target b)"
  have t: "CHR '','' \<notin> set t" using s t0 by (simp add: t_def)
  have f: "Source (fill_Target b) = Source b" "Target (fill_Target b) = t"
    "Writable (fill_Target b) = Writable b"
    by (simp_all add: fill_Target_fields t_def)
  have r: "fill_Target b = \<lparr>Source = Source b, Target = t, Writable = Writable b\<rparr>"
    using f by (cases "fill_Target b") simp
  show ?thesis
  proof (cases "Writable b = ReadWrite")
    case True
    have "SplitN (Source b @ CHR '','' # t @ CHR '','' # ''1'') (CHR '','') 3 = [Source b, t, ''1'']"
      using s t by (rule SplitN3_three)
    then show ?thesis using True
      by (simp add: BindingFromString_def Binding_String_def Let_def f Atoi_1 ReadWrite_def r)
  next
    case False
    then have ro: "Writable b = 0" using w by (simp add: ReadOnly_def)
    show ?thesis
    proof (cases "Source b = t")
      case True
      have "SplitN (Source b) (CHR '','') 3 = [Source b]"
        using s by (rule SplitN3_one)
      then show ?thesis using False True ro s t
        by (simp add: BindingFromString_def Binding_String_def Let_def f r)
    next
      case ne: False
      have "SplitN (Source b @ CHR '','' # t) (CHR '','') 3 = [Source b, t]"
        using s t by (rule SplitN3_two)
      then show ?thesis using False ne ro s t
        by (simp add: BindingFromString_def Binding_String_def Let_def f r)
    qed
  qed
qed

text \<open>
  Claim C2, as stated: for every Binding (any Source, Target and Writable value, also
  with commas), \<open>BindingFromString(b.String())\<close> succeeds and returns the same Source,
  effective Target and Writable. This fails: \<open>String\<close> writes a Source with a comma
  unescaped, \<open>SplitN(s, ",", 3)\<close> cuts it at the first two commas and \<open>Atoi\<close> rejects
  the third token; and a Writable value other than \<open>ReadWrite\<close> is serialised in the
  short form, which parses as \<open>0\<close>.
\<close>

theorem C2_roundtrip_counterexample:
  "BindingFromString (Binding_String \<lparr>Source = ''a,b'', Target = '''', Writable = ReadOnly\<rparr>)
     = Inl AtoiError
   \<and> BindingFromString (Binding_String \<lparr>Source = ''/a'', Target = '''', Writable = 2\<rparr>)
     = Inr \<lparr>Source = ''/a'', Target = ''/a'', Writable = 0\<rparr>"
  by (simp add: BindingFromString_def Binding_String_def fill_Target_def ReadWrite_def
      ReadOnly_def Atoi_def is_digit_def three_Suc)

text \<open>
  Claim C2, amended: for every Binding whose Source and Target contain no comma and whose
  Writable option is \<open>ReadOnly\<close> or \<open>ReadWrite\<close>, \<open>BindingFromString(b.String())\<close>
  succeeds and returns a Binding with the same Source, the same effective Target (Source
  when Target is empty) and the same Writable option.
\<close>

theorem C2_roundtrip:
  assumes "CHR '','' \<notin> set (Source b)" and "CHR '','' \<notin> set (Target b)"
    and "Writable b = ReadOnly \<or> Writable b = ReadWrite"
  shows "BindingFromString (Binding_String b) =
           Inr \<lparr>Source = Source b,
                Target = (if Target b = [] then Source b else Target b),
                Writable = Writable b\<rparr>"
proof -
  have "fill_Target b = \<lparr>Source = Source b,
          Target = (if Target b = [] then Source b else Target b), Writable = Writable b\<rparr>"
    by (cases b) (simp add: fill_Target_def)
  then show ?thesis using BindingFromString_String [OF assms] by simp
qed

theorem C2_roundtrip_witness:
  "CHR '','' \<notin> set ''/work'' \<and> CHR '','' \<notin> set '''' \<and>
   (ReadWrite = ReadOnly \<or> ReadWrite = ReadWrite) \<and>
   BindingFromString (Binding_String \<lparr>Source = ''/work'', Target = '''', Writable = ReadWrite\<rparr>)
     = Inr \<lparr>Source = ''/work'', Target = ''/work'', Writable = ReadWrite\<rparr>"
  using C2_roundtrip [of "\<lparr>Source = ''/work'', Target = '''', Writable = ReadWrite\<rparr>"]
  by simp

subsection \<open>Facts about splitting, joining and environment lists\<close>

lemma HasPrefix_append [simp]: "HasPrefix (p @ s) p"
  by (simp add: HasPrefix_def)

lemma HasPrefix_key [simp]: "HasPrefix (k @ c # v) (k @ [c])"
  by (simp add: HasPrefix_def)

lemma Split_not_Nil [simp]: "Split s c \<noteq> []"
  by (induction s) (auto split: list.splits)

lemma Split_no_sep: "c \<notin> set s \<Longrightarrow> Split s c = [s]"
  by (induction s) (auto split: list.splits)

lemma Split_append_sep: "c \<notin> set a \<Longrightarrow> Split (a @ c # r) c = a # Split r c"
  by (induction a) (auto split: list.splits)

lemma Split_elems_no_sep: "x \<in> set (Split s c) \<Longrightarrow> c \<notin> set x"
proof (induction s arbitrary: x)
  case Nil
  then show ?case by simp
next
  case (Cons a s)
  obtain w ws where sp: "Split s c = w # ws" by (cases "Split s c") auto
  show ?case
  proof (cases "a = c")
    case True
    with Cons show ?thesis by auto
  next
    case False
    with Cons.prems sp have "x = a # w \<or> x \<in> set ws" by simp
    moreover have "c \<notin> set w" using Cons.IH [of w] sp by simp
    moreover have "x \<in> set ws \<Longrightarrow> c \<notin> set x" using Cons.IH [of x] sp by simp
    ultimately show ?thesis using False by auto
  qed
qed

lemma Split_Join:
  "xs \<noteq> [] \<Longrightarrow> \<forall>x\<in>set xs. c \<notin> set x \<Longrightarrow> Split (Join xs [c]) c = xs"
proof (induction xs "[c]" rule: Join.induct)
  case 1
  then show ?case by simp
next
  case (2 x)
  then show ?case by (simp add: Split_no_sep)
next
  case (3 x y ys)
  then show ?case by (simp add: Split_append_sep)
qed

lemma Join_merge: "Join ((x @ c # y) # ys) [c] = x @ c # Join (y # ys) [c]"
  by (cases ys) simp_all

lemma Getenv_Setenv:
  assumes "key \<noteq> []" and "CHR ''='' \<notin> set key"
  shows "\<exists>env'. Setenv env key v = Inr env' \<and> Getenv env' key = v"
  using assms by (simp add: Setenv_def Getenv_def)

subsection \<open>Bindings passed through the environment\<close>

lemma BindingsEnvVarName_ok: "BindingsEnvVarName \<noteq> [] \<and> CHR ''='' \<notin> set BindingsEnvVarName"
  by (simp add: BindingsEnvVarName_def)

lemma AddMinijailBindingToEnv_value:
  "\<exists>env'. AddMinijailBindingToEnv env b = Inr env' \<and>
     Getenv env' BindingsEnvVarName =
       (if Getenv env BindingsEnvVarName = [] then Binding_String b
        else Getenv env BindingsEnvVarName @ '':'' @ Binding_String b)"
  using Getenv_Setenv [of BindingsEnvVarName env] BindingsEnvVarName_ok
  by (simp add: AddMinijailBindingToEnv_def Let_def)

lemma AddMinijailBindingsToEnv_value:
  assumes "\<forall>b\<in>set bs. Binding_String b \<noteq> []"
  shows "\<exists>env'. AddMinijailBindingsToEnv env bs = Inr env' \<and>
     Getenv env' BindingsEnvVarName =
       Join ((if Getenv env BindingsEnvVarName = [] then [] else [Getenv env BindingsEnvVarName])
             @ map Binding_String bs) '':''"
  using assms
proof (induction bs arbitrary: env)
  case Nil
  then show ?case by simp
next
  case (Cons b bs)
  obtain env1 where e1: "AddMinijailBindingToEnv env b = Inr env1"
    and v1: "Getenv env1 BindingsEnvVarName =
       (if Getenv env BindingsEnvVarName = [] then Binding_String b
        else Getenv env BindingsEnvVarName @ '':'' @ Binding_String b)"
    using AddMinijailBindingToEnv_value by blast
  have ne: "Getenv env1 BindingsEnvVarName \<noteq> []" using v1 Cons.prems by simp
  obtain env2 where e2: "AddMinijailBindingsToEnv env1 bs = Inr env2"
    and v2: "Getenv env2 BindingsEnvVarName =
       Join ([Getenv env1 BindingsEnvVarName] @ map Binding_String bs) '':''"
    using Cons.IH [of env1] Cons.prems ne by auto
  have "Getenv env2 BindingsEnvVarName =
      Join ((if Getenv env BindingsEnvVarName = [] then [] else [Getenv env BindingsEnvVarName])
             @ map Binding_String (b # bs)) '':''"
    using v2 v1 by (simp add: Join_merge)
  then show ?case using e1 e2 by simp
qed

lemma additionalBindings_loop_String:
  assumes "\<forall>b\<in>set bs. Binding_String b \<noteq> [] \<and> CHR '','' \<notin> set (Source b) \<and>
             CHR '','' \<notin> set (Target b) \<and> (Writable b = ReadOnly \<or> Writable b = ReadWrite)"
  shows "additionalBindings_loop acc (map Binding_String bs) = Inr (acc @ map fill_Target bs)"
  using assms
proof (induction bs arbitrary: acc)
  case Nil
  then show ?case by simp
next
  case (Cons b bs)
  then show ?case by (simp add: BindingFromString_String)
qed

text \<open>
  Claim C10, as stated: for every environment list and every sequence of bindings whose
  serialised forms contain no colon, the repeated \<open>AddMinijailBindingToEnv\<close> stores the
  colon-joined \<open>String()\<close> forms in \<open>CIFUZZ_MINIJAIL_BINDINGS\<close>, and the parsing loop
  of \<open>NewMinijail\<close> recovers exactly the added bindings. This fails in four ways: a
  value that the variable already has stays in front of the added entries; a binding with
  a comma in its Source does not parse; a binding whose serialised form is empty leaves
  no entry; and a Writable option other than \<open>ReadOnly\<close> and \<open>ReadWrite\<close> comes back
  as \<open>ReadOnly\<close>.
\<close>

theorem C10_bindings_env_counterexample:
  "(CHR '':'' \<notin> set (Binding_String \<lparr>Source = ''/a'', Target = '''', Writable = ReadOnly\<rparr>) \<and>
    AddMinijailBindingsToEnv [''CIFUZZ_MINIJAIL_BINDINGS=/x'']
        [\<lparr>Source = ''/a'', Target = '''', Writable = ReadOnly\<rparr>]
      = Inr [''CIFUZZ_MINIJAIL_BINDINGS=/x:/a''] \<and>
    additionalBindings [] ''/x:/a''
      = Inr [\<lparr>Source = ''/x'', Target = ''/x'', Writable = ReadOnly\<rparr>,
             \<lparr>Source = ''/a'', Target = ''/a'', Writable = ReadOnly\<rparr>]) \<and>
   (CHR '':'' \<notin> set (Binding_String \<lparr>Source = ''a,b'', Target = '''', Writable = ReadOnly\<rparr>) \<and>
    AddMinijailBindingsToEnv [] [\<lparr>Source = ''a,b'', Target = '''', Writable = ReadOnly\<rparr>]
      = Inr [''CIFUZZ_MINIJAIL_BINDINGS=a,b,a,b,0''] \<and>
    additionalBindings [] ''a,b,a,b,0'' = Inl AtoiError) \<and>
   (CHR '':'' \<notin> set (Binding_String \<lparr>Source = '''', Target = '''', Writable = ReadOnly\<rparr>) \<and>
    AddMinijailBindingsToEnv []
        [\<lparr>Source = '''', Target = '''', Writable = ReadOnly\<rparr>,
         \<lparr>Source = ''/a'', Target = '''', Writable = ReadOnly\<rparr>]
      = Inr [''CIFUZZ_MINIJAIL_BINDINGS=/a''] \<and>
    additionalBindings [] ''/a''
      = Inr [\<lparr>Source = ''/a'', Target = ''/a'', Writable = ReadOnly\<rparr>]) \<and>
   (CHR '':'' \<notin> set (Binding_String \<lparr>Source = ''/a'', Target = '''', Writable = 2\<rparr>) \<and>
    AddMinijailBindingsToEnv [] [\<lparr>Source = ''/a'', Target = '''', Writable = 2\<rparr>]
      = Inr [''CIFUZZ_MINIJAIL_BINDINGS=/a''] \<and>
    additionalBindings [] ''/a''
      = Inr [\<lparr>Source = ''/a'', Target = ''/a'', Writable = 0\<rparr>])"
  by (simp add: AddMinijailBindingToEnv_def additionalBindings_def BindingFromString_def
      Binding_String_def fill_Target_def ReadWrite_def ReadOnly_def Atoi_def is_digit_def
      three_Suc Getenv_def Setenv_def BindingsEnvVarName_def HasPrefix_def)

text \<open>
  Claim C10, amended: for every environment list in which \<open>CIFUZZ_MINIJAIL_BINDINGS\<close>
  is unset or empty, and every sequence of bindings whose serialised forms are not empty
  and contain no colon, whose Source and Target contain no comma and whose Writable option
  is \<open>ReadOnly\<close> or \<open>ReadWrite\<close>: the repeated \<open>AddMinijailBindingToEnv\<close> succeeds
  and stores the colon-joined \<open>String()\<close> forms in insertion order, and the parsing loop
  of \<open>NewMinijail\<close> (split at colons, skip empty entries, \<open>BindingFromString\<close>) returns
  the added bindings in order, each with its effective Target.
\<close>

theorem C10_bindings_env_roundtrip:
  assumes unset: "Getenv env BindingsEnvVarName = []"
    and ok: "\<forall>b\<in>set bs. CHR '':'' \<notin> set (Binding_String b) \<and> Binding_String b \<noteq> [] \<and>
             CHR '','' \<notin> set (Source b) \<and> CHR '','' \<notin> set (Target b) \<and>
             (Writable b = ReadOnly \<or> Writable b = ReadWrite)"
  shows "\<exists>env'. AddMinijailBindingsToEnv env bs = Inr env' \<and>
           Getenv env' BindingsEnvVarName = Join (map Binding_String bs) '':'' \<and>
           additionalBindings [] (Getenv env' BindingsEnvVarName) = Inr (map fill_Target bs)"
proof -
  obtain env' where e: "AddMinijailBindingsToEnv env bs = Inr env'"
    and v: "Getenv env' BindingsEnvVarName = Join (map Binding_String bs) '':''"
    using AddMinijailBindingsToEnv_value [of bs env] ok unset by auto
  have "additionalBindings [] (Join (map Binding_String bs) '':'') = Inr (map fill_Target bs)"
  proof (cases bs)
    case Nil
    then show ?thesis by (simp add: additionalBindings_def)
  next
    case (Cons b bs')
    have "Split (Join (map Binding_String bs) [CHR '':'']) (CHR '':'') = map Binding_String bs"
      using ok Cons by (intro Split_Join) auto
    then show ?thesis
      using additionalBindings_loop_String [of bs "[]"] ok
      by (simp add: additionalBindings_def)
  qed
  then show ?thesis using e v by simp
qed

theorem C10_bindings_env_roundtrip_witness:
  "Getenv [''PATH=/bin''] BindingsEnvVarName = [] \<and>
   (\<exists>env'. AddMinijailBindingsToEnv [''PATH=/bin'']
        [\<lparr>Source = ''/a'', Target = '''', Writable = ReadOnly\<rparr>,
         \<lparr>Source = ''/b'', Target = ''/c'', Writable = ReadWrite\<rparr>] = Inr env' \<and>
      Getenv env' BindingsEnvVarName = ''/a:/b,/c,1'' \<and>
      additionalBindings [] (Getenv env' BindingsEnvVarName)
        = Inr [\<lparr>Source = ''/a'', Target = ''/a'', Writable = ReadOnly\<rparr>,
               \<lparr>Source = ''/b'', Target = ''/c'', Writable = ReadWrite\<rparr>])"
proof -
  have h1: "Getenv [''PATH=/bin''] BindingsEnvVarName = []"
    by (simp add: Getenv_def BindingsEnvVarName_def HasPrefix_def)
  have h2: "\<forall>b\<in>set [\<lparr>Source = ''/a'', Target = '''', Writable = ReadOnly\<rparr>,
                     \<lparr>Source = ''/b'', Target = ''/c'', Writable = ReadWrite\<rparr>].
      CHR '':'' \<notin> set (Binding_String b) \<and> Binding_String b \<noteq> [] \<and>
      CHR '','' \<notin> set (Source b) \<and> CHR '','' \<notin> set (Target b) \<and>
      (Writable b = ReadOnly \<or> Writable b = ReadWrite)"
    by (simp add: Binding_String_def fill_Target_def ReadOnly_def ReadWrite_def)
  show ?thesis
    using h1 C10_bindings_env_roundtrip [OF h1 h2]
    by (simp add: Binding_String_def fill_Target_def ReadOnly_def ReadWrite_def)
qed

subsection \<open>Merging sanitizer options\<close>

lemma HasPrefix_takeWhile:
  assumes "HasPrefix s (k @ [c])" and "c \<notin> set k"
  shows "takeWhile (\<lambda>x. x \<noteq> c) s = k"
proof -
  have "s = (k @ [c]) @ drop (length (k @ [c])) s"
    using assms(1) unfolding HasPrefix_def by (metis append_take_drop_id)
  then have "s = k @ c # drop (length (k @ [c])) s" by simp
  then show ?thesis using takeWhile_sep [OF assms(2)] by metis
qed

lemma HasPrefix_same_key:
  assumes "HasPrefix s (k @ [c])" and "HasPrefix s (k' @ [c])"
    and "c \<notin> set k" and "c \<notin> set k'"
  shows "k = k'"
  using HasPrefix_takeWhile [OF assms(1,3)] HasPrefix_takeWhile [OF assms(2,4)] by simp

lemma HasPrefix_entry:
  assumes "c \<notin> set k" and "c \<notin> set key"
  shows "HasPrefix (key @ c # v) (k @ [c]) \<longleftrightarrow> k = key"
proof
  assume "HasPrefix (key @ c # v) (k @ [c])"
  then show "k = key"
    using HasPrefix_same_key [of "key @ c # v" k c key] assms by simp
next
  assume "k = key"
  then show "HasPrefix (key @ c # v) (k @ [c])" by simp
qed

lemma list_ex_values_of:
  "list_ex (\<lambda>option. HasPrefix option (key @ ''='')) options \<longleftrightarrow> values_of options key \<noteq> []"
  by (simp add: values_of_def list_ex_iff filter_empty_conv)

lemma values_of_append:
  "values_of (xs @ ys) k = values_of xs k @ values_of ys k"
  by (simp add: values_of_def)

lemma values_of_entry:
  assumes "CHR ''='' \<notin> set k" and "CHR ''='' \<notin> set key"
  shows "values_of [key @ ''='' @ v] k = (if k = key then [v] else [])"
  using HasPrefix_entry [OF assms, of v] by (auto simp: values_of_def)

lemma values_of_setDefault:
  assumes "CHR ''='' \<notin> set k" and "CHR ''='' \<notin> set key"
  shows "values_of (setDefaultIfNotSetAlready options key v) k =
           (if k = key \<and> values_of options k = [] then [v] else values_of options k)"
  using values_of_entry [OF assms, of v]
  by (auto simp: setDefaultIfNotSetAlready_def list_ex_values_of values_of_append)

lemma values_of_override:
  assumes "CHR ''='' \<notin> set k" and "CHR ''='' \<notin> set key"
  shows "values_of (overrideOption options key v) k =
           (if k = key then (case values_of options k of [] \<Rightarrow> [v] | x # xs \<Rightarrow> v # xs)
            else values_of options k)"
proof (induction options)
  case Nil
  show ?case using values_of_entry [OF assms, of v] by (simp add: values_of_def)
next
  case (Cons option options)
  show ?case
  proof (cases "HasPrefix option (key @ ''='')")
    case True
    have e: "HasPrefix (key @ ''='' @ v) (k @ ''='') \<longleftrightarrow> k = key"
      using HasPrefix_entry [OF assms, of v] by simp
    have o: "HasPrefix option (k @ ''='') \<longleftrightarrow> k = key"
      using True HasPrefix_same_key [of option k "CHR ''=''" key] assms by auto
    show ?thesis using True e o by (auto simp: values_of_def)
  next
    case False
    then show ?thesis using Cons.IH by (auto simp: values_of_def)
  qed
qed

lemma values_of_defaults:
  assumes "CHR ''='' \<notin> set k" and "\<forall>(key, val)\<in>set ds. CHR ''='' \<notin> set key"
  shows "values_of (foldl (\<lambda>options (key, val). setDefaultIfNotSetAlready options key val)
                      options ds) k =
           (if values_of options k \<noteq> [] then values_of options k
            else (case map_of ds k of Some v \<Rightarrow> [v] | None \<Rightarrow> []))"
  using assms(2)
proof (induction ds arbitrary: options)
  case Nil
  then show ?case by simp
next
  case (Cons d ds)
  obtain key v where d: "d = (key, v)" by (cases d)
  have key: "CHR ''='' \<notin> set key" using Cons.prems d by simp
  have rest: "\<forall>(key, val)\<in>set ds. CHR ''='' \<notin> set key" using Cons.prems by simp
  show ?case
    using Cons.IH [OF rest, of "setDefaultIfNotSetAlready options key v"]
      values_of_setDefault [OF assms(1) key, of options v]
    by (simp add: d)
qed

lemma values_of_overrides:
  assumes "CHR ''='' \<notin> set k" and "\<forall>(key, val)\<in>set os. CHR ''='' \<notin> set key"
    and "distinct (map fst os)"
  shows "values_of (foldl (\<lambda>options (key, val). overrideOption options key val)
                      options os) k =
           (case map_of os k of
              None \<Rightarrow> values_of options k
            | Some v \<Rightarrow> (case values_of options k of [] \<Rightarrow> [v] | x # xs \<Rightarrow> v # xs))"
  using assms(2,3)
proof (induction os arbitrary: options)
  case Nil
  then show ?case by simp
next
  case (Cons d os)
  obtain key v where d: "d = (key, v)" by (cases d)
  have key: "CHR ''='' \<notin> set key" using Cons.prems d by simp
  have rest: "\<forall>(key, val)\<in>set os. CHR ''='' \<notin> set key" "distinct (map fst os)"
    using Cons.prems by simp_all
  have fresh: "map_of os key = None"
    using Cons.prems(2) d by (simp add: map_of_eq_None_iff)
  show ?case
    using Cons.IH [OF rest, of "overrideOption options key v"]
      values_of_override [OF assms(1) key, of options v] fresh
    by (auto simp: d split: list.splits option.splits)
qed

lemma no_colon_setDefault:
  assumes "\<forall>option\<in>set options. c \<notin> set option" and "c \<notin> set key" "c \<notin> set v" "c \<noteq> CHR ''=''"
  shows "\<forall>option\<in>set (setDefaultIfNotSetAlready options key v). c \<notin> set option"
  using assms by (auto simp: setDefaultIfNotSetAlready_def)

lemma no_colon_override:
  assumes "\<forall>option\<in>set options. c \<notin> set option" and "c \<notin> set key" "c \<notin> set v" "c \<noteq> CHR ''=''"
  shows "\<forall>option\<in>set (overrideOption options key v). c \<notin> set option"
  using assms by (induction options) auto

lemma no_colon_defaults:
  assumes "\<forall>option\<in>set options. c \<notin> set option"
    and "\<forall>(key, val)\<in>set ds. c \<notin> set key \<and> c \<notin> set val" and "c \<noteq> CHR ''=''"
  shows "\<forall>option\<in>set (foldl (\<lambda>options (key, val). setDefaultIfNotSetAlready options key val)
                          options ds). c \<notin> set option"
  using assms(1,2)
proof (induction ds arbitrary: options)
  case Nil
  then show ?case by simp
next
  case (Cons d ds)
  obtain key v where d: "d = (key, v)" by (cases d)
  have "\<forall>option\<in>set (setDefaultIfNotSetAlready options key v). c \<notin> set option"
    using Cons.prems d assms(3) by (intro no_colon_setDefault) auto
  then show ?case using Cons.IH Cons.prems(2) by (simp add: d)
qed

lemma no_colon_overrides:
  assumes "\<forall>option\<in>set options. c \<notin> set option"
    and "\<forall>(key, val)\<in>set os. c \<notin> set key \<and> c \<notin> set val" and "c \<noteq> CHR ''=''"
  shows "\<forall>option\<in>set (foldl (\<lambda>options (key, val). overrideOption options key val)
                          options os). c \<notin> set option"
  using assms(1,2)
proof (induction os arbitrary: options)
  case Nil
  then show ?case by simp
next
  case (Cons d os)
  obtain key v where d: "d = (key, v)" by (cases d)
  have "\<forall>option\<in>set (overrideOption options key v). c \<notin> set option"
    using Cons.prems d assms(3) by (intro no_colon_override) auto
  then show ?case using Cons.IH Cons.prems(2) by (simp add: d)
qed

lemma values_of_nonempty: "values_of (filter (\<lambda>e. e \<noteq> []) options) k = values_of options k"
proof -
  have "filter (\<lambda>option. HasPrefix option (k @ ''='')) (filter (\<lambda>e. e \<noteq> []) options)
        = filter (\<lambda>option. HasPrefix option (k @ ''='')) options"
    by (auto simp: HasPrefix_def intro: filter_cong)
  then show ?thesis by (simp add: values_of_def)
qed

lemma option_values_JoinNonEmpty:
  assumes "\<forall>option\<in>set options. CHR '':'' \<notin> set option"
  shows "option_values (JoinNonEmpty options '':'') k = values_of options k"
proof (cases "filter (\<lambda>e. e \<noteq> []) options = []")
  case True
  have "values_of options k = []"
    using values_of_nonempty [of options k] True by (simp add: values_of_def)
  then show ?thesis using True
    by (simp add: option_values_def JoinNonEmpty_def values_of_def HasPrefix_def)
next
  case False
  have "Split (Join (filter (\<lambda>e. e \<noteq> []) options) [CHR '':'']) (CHR '':'')
        = filter (\<lambda>e. e \<noteq> []) options"
    using False assms by (intro Split_Join) auto
  then show ?thesis
    by (simp add: option_values_def JoinNonEmpty_def values_of_nonempty)
qed

lemma option_values_SetSanitizerOptions:
  assumes "\<forall>(key, val)\<in>set defaults \<union> set overrides.
             CHR ''='' \<notin> set key \<and> CHR '':'' \<notin> set key \<and> CHR '':'' \<notin> set val"
    and "distinct (map fst overrides)"
    and "CHR ''='' \<notin> set k"
  shows "option_values (SetSanitizerOptions existing defaults overrides) k =
     (case map_of overrides k of
        None \<Rightarrow> (if option_values existing k \<noteq> [] then option_values existing k
                  else (case map_of defaults k of Some v \<Rightarrow> [v] | None \<Rightarrow> []))
      | Some v \<Rightarrow>
          (case option_values existing k of
             [] \<Rightarrow> [v]
           | x # xs \<Rightarrow> v # xs))"
proof -
  define o0 where "o0 = Split existing (CHR '':'')"
  define o1 where
    "o1 = foldl (\<lambda>options (key, val). setDefaultIfNotSetAlready options key val) o0 defaults"
  define o2 where
    "o2 = foldl (\<lambda>options (key, val). overrideOption options key val) o1 overrides"
  have kd: "\<forall>(key, val)\<in>set defaults. CHR ''='' \<notin> set key"
    and ko: "\<forall>(key, val)\<in>set overrides. CHR ''='' \<notin> set key"
    and cd: "\<forall>(key, val)\<in>set defaults. CHR '':'' \<notin> set key \<and> CHR '':'' \<notin> set val"
    and co: "\<forall>(key, val)\<in>set overrides. CHR '':'' \<notin> set key \<and> CHR '':'' \<notin> set val"
    using assms(1) by auto
  have c0: "\<forall>option\<in>set o0. CHR '':'' \<notin> set option"
    unfolding o0_def using Split_elems_no_sep by blast
  have c1: "\<forall>option\<in>set o1. CHR '':'' \<notin> set option"
    unfolding o1_def using c0 cd by (intro no_colon_defaults) auto
  have c2: "\<forall>option\<in>set o2. CHR '':'' \<notin> set option"
    unfolding o2_def using c1 co by (intro no_colon_overrides) auto
  have v1: "values_of o1 k = (if values_of o0 k \<noteq> [] then values_of o0 k
            else (case map_of defaults k of Some v \<Rightarrow> [v] | None \<Rightarrow> []))"
    unfolding o1_def using assms(3) kd by (rule values_of_defaults)
  have v2: "values_of o2 k = (case map_of overrides k of
              None \<Rightarrow> values_of o1 k
            | Some v \<Rightarrow> (case values_of o1 k of [] \<Rightarrow> [v] | x # xs \<Rightarrow> v # xs))"
    unfolding o2_def using assms(3) ko assms(2) by (rule values_of_overrides)
  have r: "SetSanitizerOptions existing defaults overrides = JoinNonEmpty o2 '':''"
    by (simp add: SetSanitizerOptions_def o0_def o1_def o2_def)
  have e: "option_values existing k = values_of o0 k"
    by (simp add: option_values_def o0_def)
  show ?thesis
    unfolding r option_values_JoinNonEmpty [OF c2] v2 v1 e
    by (auto split: option.splits list.splits)
qed

text \<open>
  Claim C1, as stated: for every existing options string, defaults map and overrides map,
  the string returned by \<open>SetSanitizerOptions\<close> maps every key of the overrides to its
  override, keeps the existing value of every other key that is already set, maps every
  remaining key of the defaults to its default, and has no key more than once. This
  fails for an existing string that already sets a key twice: the second option stays,
  and an override replaces the first one only. It also fails for a default whose value
  has a colon, which ends the value in the result, and for a key with \<open>=\<close>, whose option
  counts as one of the key before the \<open>=\<close>.
\<close>

theorem C1_merge_counterexample:
  "option_values (SetSanitizerOptions ''a=1:a=2'' [] []) ''a'' = [''1'', ''2''] \<and>
   option_values (SetSanitizerOptions ''a=1:a=2'' [] [(''a'', ''3'')]) ''a'' = [''3'', ''2''] \<and>
   option_values (SetSanitizerOptions '''' [(''a'', ''x:b=1'')] []) ''a'' = [''x''] \<and>
   option_values (SetSanitizerOptions '''' [(''a=b'', ''1''), (''a'', ''5'')] []) ''a'' = [''b=1'']"
  by (simp add: option_values_def values_of_def SetSanitizerOptions_def JoinNonEmpty_def
      setDefaultIfNotSetAlready_def HasPrefix_def)

text \<open>
  Claim C1, amended: let the keys of the defaults and of the overrides contain neither
  \<open>=\<close> nor \<open>:\<close>, and their values no \<open>:\<close>. Then for every key \<open>k\<close> without \<open>=\<close>
  that the existing options string sets at most once, the string returned by
  \<open>SetSanitizerOptions\<close> sets \<open>k\<close> to the override when \<open>k\<close> is a key of the
  overrides, else to its existing value when the existing string sets it, else to the
  default when \<open>k\<close> is a key of the defaults, and in each of these cases exactly once;
  a key in none of the three is not set.
\<close>

theorem C1_merge:
  assumes "distinct (map fst defaults)" and "distinct (map fst overrides)"
    and "\<forall>(key, val)\<in>set defaults \<union> set overrides.
           CHR ''='' \<notin> set key \<and> CHR '':'' \<notin> set key \<and> CHR '':'' \<notin> set val"
    and "CHR ''='' \<notin> set k"
    and "length (option_values existing k) \<le> 1"
  shows "option_values (SetSanitizerOptions existing defaults overrides) k =
     (case map_of overrides k of
        Some v \<Rightarrow> [v]
      | None \<Rightarrow>
          (case option_values existing k of
             v # _ \<Rightarrow> [v]
           | [] \<Rightarrow> (case map_of defaults k of Some v \<Rightarrow> [v] | None \<Rightarrow> [])))"
proof -
  have "option_values existing k = [] \<or> (\<exists>v. option_values existing k = [v])"
    using assms(5) by (cases "option_values existing k") auto
  then show ?thesis
    using option_values_SetSanitizerOptions [OF assms(3,2,4), of existing]
    by (auto split: option.splits list.splits)
qed

theorem C1_merge_witness:
  "distinct (map fst [(''color'', ''never''), (''log_path'', ''stdout'')]) \<and>
   distinct (map fst [(''exitcode'', ''78''), (''log_path'', ''stderr'')]) \<and>
   length (option_values ''exitcode=1:detect_leaks=0'' ''exitcode'') \<le> 1 \<and>
   option_values (SetSanitizerOptions ''exitcode=1:detect_leaks=0''
       [(''color'', ''never''), (''log_path'', ''stdout'')]
       [(''exitcode'', ''78''), (''log_path'', ''stderr'')]) ''exitcode'' = [''78'']"
proof -
  have h1: "distinct (map fst [(''color'', ''never''), (''log_path'', ''stdout'')])" by simp
  have h2: "distinct (map fst [(''exitcode'', ''78''), (''log_path'', ''stderr'')])" by simp
  have h3: "\<forall>(key, val)\<in>set [(''color'', ''never''), (''log_path'', ''stdout'')]
                 \<union> set [(''exitcode'', ''78''), (''log_path'', ''stderr'')].
           CHR ''='' \<notin> set key \<and> CHR '':'' \<notin> set key \<and> CHR '':'' \<notin> set val" by simp
  have h4: "CHR ''='' \<notin> set ''exitcode''" by simp
  have h5: "length (option_values ''exitcode=1:detect_leaks=0'' ''exitcode'') \<le> 1"
    by (simp add: option_values_def values_of_def HasPrefix_def)
  show ?thesis
    using h1 h2 h5 C1_merge [OF h1 h2 h3 h4 h5] by simp
qed

subsection \<open>The common sanitizer options\<close>

lemma Getenv_Setenv_other:
  assumes "CHR ''='' \<notin> set k" and "CHR ''='' \<notin> set k'" and "k \<noteq> k'"
    and "Setenv env k' v = Inr env'"
  shows "Getenv env' k = Getenv env k"
proof -
  have env': "env' = filter (\<lambda>e. \<not> HasPrefix e (k' @ ''='')) env @ [k' @ ''='' @ v]"
    using assms(4) by (simp add: Setenv_def split: if_splits)
  have "\<not> HasPrefix (k' @ ''='' @ v) (k @ ''='')"
    using HasPrefix_entry [OF assms(1,2), of v] assms(3) by simp
  moreover have "filter (\<lambda>e. HasPrefix e (k @ ''='')) (filter (\<lambda>e. \<not> HasPrefix e (k' @ ''='')) env)
      = filter (\<lambda>e. HasPrefix e (k @ ''='')) env"
    using HasPrefix_same_key [of _ k "CHR ''=''" k'] assms(1,2,3)
    by (auto intro: filter_cong)
  ultimately show ?thesis by (simp add: env' Getenv_def)
qed

lemma map_of_range:
  assumes "mset ys = mset xs" and "distinct (map fst xs)"
  shows "map_of ys = map_of xs" and "distinct (map fst ys)" and "set ys = set xs"
proof -
  show s: "set ys = set xs" using assms(1) by (rule mset_eq_setD)
  have "mset (map fst ys) = mset (map fst xs)" using assms(1) by simp
  then show d: "distinct (map fst ys)"
    using assms(2) mset_eq_imp_distinct_iff by blast
  show "map_of ys = map_of xs"
    using d assms(2) s by (simp add: map_of_inject_set)
qed

lemma option_values_ASAN:
  assumes rng: "\<And>kvs. mset (rng kvs) = mset kvs" and k: "CHR ''='' \<notin> set k"
  shows "option_values
           (SetSanitizerOptions existing (rng (defaultSanitizerOptions isTerminal))
              (rng [(''exitcode'', ''78''), (''log_path'', ''stderr'')])) k =
         (if k = ''exitcode'' then ''78'' # tl (option_values existing k)
          else if k = ''log_path'' then ''stderr'' # tl (option_values existing k)
          else if k = ''color'' \<and> option_values existing k = []
               then [sanitizerOptionsColorValue isTerminal]
          else option_values existing k)"
proof -
  let ?ds = "defaultSanitizerOptions isTerminal"
  let ?os = "[(''exitcode'', ''78''), (''log_path'', ''stderr'')]"
  have dd: "distinct (map fst ?ds)" by (simp add: defaultSanitizerOptions_def)
  have od: "distinct (map fst ?os)" by simp
  note d = map_of_range [OF rng dd] and o = map_of_range [OF rng od]
  have keys: "\<forall>(key, val)\<in>set (rng ?ds) \<union> set (rng ?os).
             CHR ''='' \<notin> set key \<and> CHR '':'' \<notin> set key \<and> CHR '':'' \<notin> set val"
    unfolding d(3) o(3)
    by (simp add: defaultSanitizerOptions_def sanitizerOptionsColorValue_def)
  show ?thesis
    unfolding option_values_SetSanitizerOptions [OF keys o(2) k] d(1) o(1)
    by (auto simp: defaultSanitizerOptions_def split: list.splits)
qed

lemma option_values_UBSAN:
  assumes rng: "\<And>kvs. mset (rng kvs) = mset kvs" and k: "CHR ''='' \<notin> set k"
  shows "option_values
           (SetSanitizerOptions existing
              (rng (defaultSanitizerOptions isTerminal @ [(''print_stacktrace'', ''1'')]))
              (rng [(''log_path'', ''stderr'')])) k =
         (if k = ''log_path'' then ''stderr'' # tl (option_values existing k)
          else if k = ''color'' \<and> option_values existing k = []
               then [sanitizerOptionsColorValue isTerminal]
          else if k = ''print_stacktrace'' \<and> option_values existing k = [] then [''1'']
          else option_values existing k)"
proof -
  let ?ds = "defaultSanitizerOptions isTerminal @ [(''print_stacktrace'', ''1'')]"
  let ?os = "[(''log_path'', ''stderr'')]"
  have dd: "distinct (map fst ?ds)" by (simp add: defaultSanitizerOptions_def)
  have od: "distinct (map fst ?os)" by simp
  note d = map_of_range [OF rng dd] and o = map_of_range [OF rng od]
  have keys: "\<forall>(key, val)\<in>set (rng ?ds) \<union> set (rng ?os).
             CHR ''='' \<notin> set key \<and> CHR '':'' \<notin> set key \<and> CHR '':'' \<notin> set val"
    unfolding d(3) o(3)
    by (simp add: defaultSanitizerOptions_def sanitizerOptionsColorValue_def)
  show ?thesis
    unfolding option_values_SetSanitizerOptions [OF keys o(2) k] d(1) o(1)
    by (auto simp: defaultSanitizerOptions_def split: list.splits)
qed

text \<open>
  What the two functions do to the options of each key, whatever order \<open>range\<close>
  yields the map entries in, when \<open>SetCommonASANOptions\<close> and then
  \<open>SetCommonUBSANOptions\<close> is applied to an environment. Both calls succeed. The
  overrides of each function take the place of the first option of their key in the
  input, or are appended; the \<open>color\<close> default, and in \<open>UBSAN_OPTIONS\<close> also
  \<open>print_stacktrace=1\<close>, is added only when the input sets no such option. The
  \<open>exitcode\<close> options of \<open>UBSAN_OPTIONS\<close> are left as the input has them, since
  \<open>exitcode\<close> is no override of \<open>SetCommonUBSANOptions\<close>.
\<close>

lemma SetCommon_options_values:
  assumes rng: "\<And>kvs. mset (rng kvs) = mset kvs"
  shows "\<exists>env1 env2.
     SetCommonASANOptions rng isTerminal env = Inr env1 \<and>
     SetCommonUBSANOptions rng isTerminal env1 = Inr env2 \<and>
     option_values (Getenv env2 ''ASAN_OPTIONS'') ''exitcode''
       = ''78'' # tl (option_values (Getenv env ''ASAN_OPTIONS'') ''exitcode'') \<and>
     option_values (Getenv env2 ''ASAN_OPTIONS'') ''log_path''
       = ''stderr'' # tl (option_values (Getenv env ''ASAN_OPTIONS'') ''log_path'') \<and>
     option_values (Getenv env2 ''ASAN_OPTIONS'') ''color''
       = (if option_values (Getenv env ''ASAN_OPTIONS'') ''color'' = []
          then [sanitizerOptionsColorValue isTerminal]
          else option_values (Getenv env ''ASAN_OPTIONS'') ''color'') \<and>
     option_values (Getenv env2 ''UBSAN_OPTIONS'') ''log_path''
       = ''stderr'' # tl (option_values (Getenv env ''UBSAN_OPTIONS'') ''log_path'') \<and>
     option_values (Getenv env2 ''UBSAN_OPTIONS'') ''exitcode''
       = option_values (Getenv env ''UBSAN_OPTIONS'') ''exitcode'' \<and>
     option_values (Getenv env2 ''UBSAN_OPTIONS'') ''color''
       = (if option_values (Getenv env ''UBSAN_OPTIONS'') ''color'' = []
          then [sanitizerOptionsColorValue isTerminal]
          else option_values (Getenv env ''UBSAN_OPTIONS'') ''color'') \<and>
     option_values (Getenv env2 ''UBSAN_OPTIONS'') ''print_stacktrace''
       = (if option_values (Getenv env ''UBSAN_OPTIONS'') ''print_stacktrace'' = []
          then [''1'']
          else option_values (Getenv env ''UBSAN_OPTIONS'') ''print_stacktrace'')"
proof -
  define a where "a = SetSanitizerOptions (Getenv env ''ASAN_OPTIONS'')
      (rng (defaultSanitizerOptions isTerminal))
      (rng [(''exitcode'', ''78''), (''log_path'', ''stderr'')])"
  obtain env1 where e1: "Setenv env ''ASAN_OPTIONS'' a = Inr env1"
    and g1: "Getenv env1 ''ASAN_OPTIONS'' = a"
    using Getenv_Setenv [of "''ASAN_OPTIONS''" env a] by auto
  have u1: "Getenv env1 ''UBSAN_OPTIONS'' = Getenv env ''UBSAN_OPTIONS''"
    using Getenv_Setenv_other [OF _ _ _ e1, of "''UBSAN_OPTIONS''"] by simp
  define u where "u = SetSanitizerOptions (Getenv env ''UBSAN_OPTIONS'')
      (rng (defaultSanitizerOptions isTerminal @ [(''print_stacktrace'', ''1'')]))
      (rng [(''log_path'', ''stderr'')])"
  obtain env2 where e2: "Setenv env1 ''UBSAN_OPTIONS'' u = Inr env2"
    and g2: "Getenv env2 ''UBSAN_OPTIONS'' = u"
    using Getenv_Setenv [of "''UBSAN_OPTIONS''" env1 u] by auto
  have a2: "Getenv env2 ''ASAN_OPTIONS'' = a"
    using Getenv_Setenv_other [OF _ _ _ e2, of "''ASAN_OPTIONS''"] g1 by simp
  have c1: "SetCommonASANOptions rng isTerminal env = Inr env1"
    using e1 by (simp add: SetCommonASANOptions_def SetASANOptions_def a_def)
  have c2: "SetCommonUBSANOptions rng isTerminal env1 = Inr env2"
    using e2 by (simp add: SetCommonUBSANOptions_def u1 u_def)
  have va: "\<And>k. CHR ''='' \<notin> set k \<Longrightarrow> option_values a k =
         (if k = ''exitcode'' then ''78'' # tl (option_values (Getenv env ''ASAN_OPTIONS'') k)
          else if k = ''log_path'' then ''stderr'' # tl (option_values (Getenv env ''ASAN_OPTIONS'') k)
          else if k = ''color'' \<and> option_values (Getenv env ''ASAN_OPTIONS'') k = []
               then [sanitizerOptionsColorValue isTerminal]
          else option_values (Getenv env ''ASAN_OPTIONS'') k)"
    unfolding a_def using rng by (rule option_values_ASAN)
  have vu: "\<And>k. CHR ''='' \<notin> set k \<Longrightarrow> option_values u k =
         (if k = ''log_path'' then ''stderr'' # tl (option_values (Getenv env ''UBSAN_OPTIONS'') k)
          else if k = ''color'' \<and> option_values (Getenv env ''UBSAN_OPTIONS'') k = []
               then [sanitizerOptionsColorValue isTerminal]
          else if k = ''print_stacktrace'' \<and> option_values (Getenv env ''UBSAN_OPTIONS'') k = []
               then [''1'']
          else option_values (Getenv env ''UBSAN_OPTIONS'') k)"
    unfolding u_def using rng by (rule option_values_UBSAN)
  have "option_values a ''exitcode''
       = ''78'' # tl (option_values (Getenv env ''ASAN_OPTIONS'') ''exitcode'')"
    using va [of "''exitcode''"] by simp
  moreover have "option_values a ''log_path''
       = ''stderr'' # tl (option_values (Getenv env ''ASAN_OPTIONS'') ''log_path'')"
    using va [of "''log_path''"] by simp
  moreover have "option_values a ''color''
       = (if option_values (Getenv env ''ASAN_OPTIONS'') ''color'' = []
          then [sanitizerOptionsColorValue isTerminal]
          else option_values (Getenv env ''ASAN_OPTIONS'') ''color'')"
    using va [of "''color''"] by simp
  moreover have "option_values u ''log_path''
       = ''stderr'' # tl (option_values (Getenv env ''UBSAN_OPTIONS'') ''log_path'')"
    using vu [of "''log_path''"] by simp
  moreover have "option_values u ''exitcode''
       = option_values (Getenv env ''UBSAN_OPTIONS'') ''exitcode''"
    using vu [of "''exitcode''"] by simp
  moreover have "option_values u ''color''
       = (if option_values (Getenv env ''UBSAN_OPTIONS'') ''color'' = []
          then [sanitizerOptionsColorValue isTerminal]
          else option_values (Getenv env ''UBSAN_OPTIONS'') ''color'')"
    using vu [of "''color''"] by simp
  moreover have "option_values u ''print_stacktrace''
       = (if option_values (Getenv env ''UBSAN_OPTIONS'') ''print_stacktrace'' = []
          then [''1'']
          else option_values (Getenv env ''UBSAN_OPTIONS'') ''print_stacktrace'')"
    using vu [of "''print_stacktrace''"] by simp
  ultimately show ?thesis
    unfolding a2 [symmetric] g2 [symmetric] using c1 c2 by blast
qed

lemma SetCommon_options_values_example:
  "(\<forall>kvs :: (string \<times> string) list. mset (rev kvs) = mset kvs) \<and>
   (\<exists>env1 env2.
     SetCommonASANOptions rev True
         [''ASAN_OPTIONS=exitcode=1:color=auto'', ''UBSAN_OPTIONS=exitcode=1''] = Inr env1 \<and>
     SetCommonUBSANOptions rev True env1 = Inr env2 \<and>
     option_values (Getenv env2 ''ASAN_OPTIONS'') ''exitcode'' = [''78''] \<and>
     option_values (Getenv env2 ''ASAN_OPTIONS'') ''log_path'' = [''stderr''] \<and>
     option_values (Getenv env2 ''ASAN_OPTIONS'') ''color'' = [''auto''] \<and>
     option_values (Getenv env2 ''UBSAN_OPTIONS'') ''log_path'' = [''stderr''] \<and>
     option_values (Getenv env2 ''UBSAN_OPTIONS'') ''exitcode'' = [''1''] \<and>
     option_values (Getenv env2 ''UBSAN_OPTIONS'') ''color'' = [''always''] \<and>
     option_values (Getenv env2 ''UBSAN_OPTIONS'') ''print_stacktrace'' = [''1''])"
proof -
  define env where
    "env = [''ASAN_OPTIONS=exitcode=1:color=auto'', ''UBSAN_OPTIONS=exitcode=1'']"
  have h: "\<And>kvs :: (string \<times> string) list. mset (rev kvs) = mset kvs" by simp
  have a: "Getenv env ''ASAN_OPTIONS'' = ''exitcode=1:color=auto''"
    by (simp add: env_def Getenv_def HasPrefix_def)
  have u: "Getenv env ''UBSAN_OPTIONS'' = ''exitcode=1''"
    by (simp add: env_def Getenv_def HasPrefix_def)
  have v: "option_values ''exitcode=1:color=auto'' ''exitcode'' = [''1'']"
    "option_values ''exitcode=1:color=auto'' ''log_path'' = []"
    "option_values ''exitcode=1:color=auto'' ''color'' = [''auto'']"
    "option_values ''exitcode=1'' ''log_path'' = []"
    "option_values ''exitcode=1'' ''exitcode'' = [''1'']"
    "option_values ''exitcode=1'' ''color'' = []"
    "option_values ''exitcode=1'' ''print_stacktrace'' = []"
    by (simp_all add: option_values_def values_of_def HasPrefix_def)
  have c: "sanitizerOptionsColorValue True = ''always''"
    by (simp add: sanitizerOptionsColorValue_def)
  show ?thesis
    using SetCommon_options_values [of rev True env, OF h] unfolding a u v c
    by (simp add: env_def)
qed

text \<open>
  Claim C5: after \<open>SetCommonASANOptions\<close> and \<open>SetCommonUBSANOptions\<close>, both
  \<open>ASAN_OPTIONS\<close> and \<open>UBSAN_OPTIONS\<close> contain \<open>exitcode=78\<close> and
  \<open>log_path=stderr\<close>, whatever the input environment holds for these keys. The override
  map of \<open>SetCommonASANOptions\<close> holds \<open>exitcode\<close> and \<open>log_path\<close>; that of
  \<open>SetCommonUBSANOptions\<close> holds \<open>log_path\<close> only. On the empty environment, and
  on one whose \<open>UBSAN_OPTIONS\<close> sets \<open>exitcode=1\<close>, the \<open>UBSAN_OPTIONS\<close> that results
  has no \<open>exitcode=78\<close>.
\<close>

theorem C5_UBSAN_exitcode_missing:
  "SetCommonASANOptions (\<lambda>kvs. kvs) False []
     = Inr [''ASAN_OPTIONS=color=never:exitcode=78:log_path=stderr''] \<and>
   SetCommonUBSANOptions (\<lambda>kvs. kvs) False
       [''ASAN_OPTIONS=color=never:exitcode=78:log_path=stderr'']
     = Inr [''ASAN_OPTIONS=color=never:exitcode=78:log_path=stderr'',
            ''UBSAN_OPTIONS=color=never:print_stacktrace=1:log_path=stderr''] \<and>
   Getenv [''ASAN_OPTIONS=color=never:exitcode=78:log_path=stderr'',
           ''UBSAN_OPTIONS=color=never:print_stacktrace=1:log_path=stderr''] ''UBSAN_OPTIONS''
     = ''color=never:print_stacktrace=1:log_path=stderr'' \<and>
   option_values ''color=never:print_stacktrace=1:log_path=stderr'' ''exitcode'' = [] \<and>
   SetCommonUBSANOptions (\<lambda>kvs. kvs) False [''UBSAN_OPTIONS=exitcode=1'']
     = Inr [''UBSAN_OPTIONS=exitcode=1:color=never:print_stacktrace=1:log_path=stderr''] \<and>
   option_values ''exitcode=1:color=never:print_stacktrace=1:log_path=stderr'' ''exitcode''
     = [''1'']"
  by (simp add: SetCommonASANOptions_def SetASANOptions_def SetCommonUBSANOptions_def
      SetSanitizerOptions_def JoinNonEmpty_def
      setDefaultIfNotSetAlready_def defaultSanitizerOptions_def sanitizerOptionsColorValue_def
      Getenv_def Setenv_def HasPrefix_def option_values_def values_of_def)

subsection \<open>The build directory of the CMake adapter\<close>

lemma Join_Split: "Join (Split s c) [c] = s"
proof (induction s)
  case Nil
  then show ?case by simp
next
  case (Cons x s)
  obtain w ws where sp: "Split s c = w # ws" by (cases "Split s c") auto
  show ?case
  proof (cases "x = c")
    case True
    then show ?thesis using Cons sp by simp
  next
    case False
    then show ?thesis using Cons sp by (cases ws) simp_all
  qed
qed

lemma Join_append:
  "xs \<noteq> [] \<Longrightarrow> ys \<noteq> [] \<Longrightarrow> Join (xs @ ys) sep = Join xs sep @ sep @ Join ys sep"
proof (induction xs sep rule: Join.induct)
  case (1 sep)
  then show ?case by simp
next
  case (2 x sep)
  then show ?case by (cases ys) simp_all
next
  case (3 x y ys sep)
  then show ?case by simp
qed

lemma foldl_clean_step_names:
  "list_all is_name elems \<Longrightarrow> foldl (clean_step rooted) out elems = out @ elems"
  by (induction elems arbitrary: out) (auto simp: clean_step_def is_name_def)

lemma Clean_abs_names:
  assumes "list_all is_name elems"
  shows "Clean (CHR ''/'' # Join elems ''/'') = CHR ''/'' # Join elems ''/''"
proof (cases "elems = []")
  case True
  then show ?thesis by (simp add: Clean_def clean_step_def)
next
  case False
  have "\<forall>x\<in>set elems. CHR ''/'' \<notin> set x"
    using assms by (simp add: list_all_iff is_name_def)
  then have "Split (Join elems [CHR ''/'']) (CHR ''/'') = elems"
    using False by (intro Split_Join) auto
  then have "Split (CHR ''/'' # Join elems ''/'') (CHR ''/'') = [] # elems" by simp
  then show ?thesis
    using foldl_clean_step_names [OF assms, of True "[]"]
    by (simp add: Clean_def clean_step_def)
qed

lemma is_clean_abs_Join:
  assumes "is_clean_abs path"
  obtains elems where "path = CHR ''/'' # Join elems ''/''" and "elems \<noteq> []"
    and "list_all is_name elems"
proof -
  obtain elems where sp: "Split path (CHR ''/'') = [] # elems"
    and ne: "elems \<noteq> []" and names: "list_all is_name elems"
    using assms by (auto simp: is_clean_abs_def split: list.splits)
  have "path = Join ([] # elems) [CHR ''/'']"
    using Join_Split [of path "CHR ''/''"] sp by simp
  then have "path = CHR ''/'' # Join elems ''/''"
    using ne by (cases elems) simp_all
  then show ?thesis using ne names that by blast
qed

lemma filepath_Join_names:
  assumes "is_clean_abs path" and "list_all is_name rest" and "rest \<noteq> []"
  shows "filepath_Join (path # rest) = path @ ''/'' @ Join rest ''/''"
proof -
  obtain elems where p: "path = CHR ''/'' # Join elems ''/''" and ne: "elems \<noteq> []"
    and names: "list_all is_name elems"
    using assms(1) by (rule is_clean_abs_Join)
  have j: "Join (path # rest) ''/'' = path @ ''/'' @ Join rest ''/''"
    using assms(3) by (cases rest) simp_all
  have "path @ ''/'' @ Join rest ''/'' = CHR ''/'' # Join (elems @ rest) ''/''"
    using Join_append [OF ne assms(3), of "''/''"] p by simp
  moreover have "Clean (CHR ''/'' # Join (elems @ rest) ''/'') = CHR ''/'' # Join (elems @ rest) ''/''"
    using names assms(2) by (intro Clean_abs_names) simp
  ultimately have "Clean (path @ ''/'' @ Join rest ''/'') = path @ ''/'' @ Join rest ''/''"
    by simp
  moreover have "path \<noteq> []" using p by simp
  ultimately show ?thesis using j by simp
qed

text \<open>
  Claim C8, as stated: for every project directory, engine string and list of sanitizers,
  the build directory is \<open><project>/.cifuzz-build/<engine>/<sanitizers joined with +>\<close>.
  This fails for the empty list of sanitizers, where the last element is \<open>none\<close>, and
  for a project directory, an engine or a sanitizer that \<open>filepath.Join\<close> rewrites: a
  trailing slash, an empty engine, a sanitizer \<open>..\<close>.
\<close>

theorem C8_BuildDir_counterexample:
  "BuildDir \<lparr>ProjectDir = ''/p'', Engine = ''libfuzzer'', Sanitizers = []\<rparr>
     = ''/p/.cifuzz-build/libfuzzer/none'' \<and>
   ''/p'' @ ''/.cifuzz-build/'' @ ''libfuzzer'' @ ''/'' @ Join [] ''+''
     = ''/p/.cifuzz-build/libfuzzer/'' \<and>
   BuildDir \<lparr>ProjectDir = ''/p/'', Engine = ''libfuzzer'', Sanitizers = [''address'']\<rparr>
     = ''/p/.cifuzz-build/libfuzzer/address'' \<and>
   ''/p/'' @ ''/.cifuzz-build/'' @ ''libfuzzer'' @ ''/'' @ Join [''address''] ''+''
     = ''/p//.cifuzz-build/libfuzzer/address'' \<and>
   BuildDir \<lparr>ProjectDir = ''/p'', Engine = '''', Sanitizers = [''address'']\<rparr>
     = ''/p/.cifuzz-build/address'' \<and>
   BuildDir \<lparr>ProjectDir = ''/p'', Engine = ''libfuzzer'', Sanitizers = [''..'']\<rparr>
     = ''/p/.cifuzz-build''"
  by (simp add: BuildDir_def Clean_def clean_step_def)

text \<open>
  Claim C8, amended: for every project directory that is a clean absolute path other than
  the root, every engine string that is a path element (not empty, not \<open>.\<close> or \<open>..\<close>,
  without slash) and every list of sanitizers whose \<open>+\<close>-joined form is empty or such a
  path element, the CMake adapter's build directory equals
  \<open><project>/.cifuzz-build/<engine>/<segment>\<close>, where the segment is the sanitizers
  joined with \<open>+\<close>, or \<open>none\<close> when that is empty.
\<close>

theorem C8_BuildDir:
  assumes "is_clean_abs (ProjectDir b)" and "is_name (Engine b)"
    and "Join (Sanitizers b) ''+'' = [] \<or> is_name (Join (Sanitizers b) ''+'')"
  shows "BuildDir b =
           ProjectDir b @ ''/.cifuzz-build/'' @ Engine b @ ''/'' @
             (if Join (Sanitizers b) ''+'' = [] then ''none'' else Join (Sanitizers b) ''+'')"
proof -
  define seg where
    "seg = (if Join (Sanitizers b) ''+'' = [] then ''none'' else Join (Sanitizers b) ''+'')"
  have seg: "is_name seg" using assms(3) by (auto simp: seg_def is_name_def)
  have "is_name ''.cifuzz-build''" by (simp add: is_name_def)
  then have names: "list_all is_name [''.cifuzz-build'', Engine b, seg]"
    using assms(2) seg by simp
  have "filepath_Join (ProjectDir b # [''.cifuzz-build'', Engine b, seg])
      = ProjectDir b @ ''/'' @ Join [''.cifuzz-build'', Engine b, seg] ''/''"
    using assms(1) names by (rule filepath_Join_names) simp
  then show ?thesis by (simp add: BuildDir_def Let_def seg_def)
qed

theorem C8_BuildDir_witness:
  "is_clean_abs ''/home/user/project'' \<and> is_name ''libfuzzer'' \<and>
   (Join [''address'', ''undefined''] ''+'' = [] \<or> is_name (Join [''address'', ''undefined''] ''+'')) \<and>
   BuildDir \<lparr>ProjectDir = ''/home/user/project'', Engine = ''libfuzzer'',
             Sanitizers = [''address'', ''undefined'']\<rparr>
     = ''/home/user/project/.cifuzz-build/libfuzzer/address+undefined''"
proof -
  have h1: "is_clean_abs ''/home/user/project''"
    by (simp add: is_clean_abs_def is_name_def)
  have h2: "is_name ''libfuzzer''" by (simp add: is_name_def)
  have h3: "Join [''address'', ''undefined''] ''+'' = [] \<or>
            is_name (Join [''address'', ''undefined''] ''+'')"
    by (simp add: is_name_def)
  show ?thesis
    using h1 h2 h3
      C8_BuildDir [of "\<lparr>ProjectDir = ''/home/user/project'', Engine = ''libfuzzer'',
             Sanitizers = [''address'', ''undefined'']\<rparr>"]
    by simp
qed

subsection \<open>Counting corpus entries\<close>

lemma walk_readable:
  "readable d \<Longrightarrow> walk d n = Inr (n + nonempty_files d)"
  "list_all (\<lambda>entry. readable (snd entry)) entries \<Longrightarrow>
     walk_entries entries n = Inr (n + sum_list (map (\<lambda>entry. nonempty_files (snd entry)) entries))"
  by (induction d n and entries n rule: walk_walk_entries.induct) auto

text \<open>
  Where every listed directory exists and can be read, the code does return the total
  number of files of non-zero size.
\<close>

lemma countCorpusEntries_loop_readable:
  assumes "\<forall>dir\<in>set dirs. \<exists>d. fs dir = Inr d \<and> readable d"
  shows "countCorpusEntries_loop fs numSeeds dirs
           = Inr (numSeeds + sum_list (map (files_below fs) dirs))"
  using assms
proof (induction dirs arbitrary: numSeeds)
  case Nil
  then show ?case by simp
next
  case (Cons dir dirs)
  obtain d where d: "fs dir = Inr d" "readable d" using Cons.prems by auto
  have "WalkDir fs dir 0 = Inr (nonempty_files d)"
    using d walk_readable(1) [of d 0] by (simp add: WalkDir_def)
  then show ?case using Cons d by (simp add: files_below_def)
qed

lemma countCorpusEntries_readable:
  assumes "\<forall>dir\<in>set dirs. \<exists>d. fs dir = Inr d \<and> readable d"
  shows "countCorpusEntries fs dirs = Inr (sum_list (map (files_below fs) dirs))"
  using countCorpusEntries_loop_readable [OF assms, of 0] by (simp add: countCorpusEntries_def)

text \<open>
  Claim C4: \<open>countCorpusEntries\<close> returns the number of files of non-zero size below
  the listed directories, and a listed directory that does not exist contributes zero
  without affecting the counts of the others. The code returns \<open>0, nil\<close> as soon as a
  directory does not exist, where its comment asks only not to fail: with one seed below
  \<open>/seeds\<close> and a missing second directory the result is 0, not 1.
\<close>

theorem C4_countCorpusEntries_missing_dir:
  "countCorpusEntries
     (\<lambda>path. if path = ''/seeds'' then Inr (Dir [(''a'', File 3), (''empty'', File 0)])
             else Inl ErrNotExist)
     [''/seeds'', ''/missing''] = Inr 0 \<and>
   countCorpusEntries
     (\<lambda>path. if path = ''/seeds'' then Inr (Dir [(''a'', File 3), (''empty'', File 0)])
             else Inl ErrNotExist)
     [''/seeds''] = Inr 1 \<and>
   nonempty_files (Dir [(''a'', File 3), (''empty'', File 0)]) = 1"
  by (simp add: countCorpusEntries_def WalkDir_def)

subsection \<open>The process wrapper\<close>

text \<open>
  Claim C9: the process wrapper changes to its first argument and executes the rest, exits
  with status 1 when a check or call fails, and passes a non-null program path to
  \<open>execv\<close> whenever the argument-count check accepts the invocation. The check is
  \<open>argc < 3\<close>, but the program path is \<open>argv[3]\<close>: with three arguments, as in the
  usage message's \<open><directory> <executable_path>\<close>, the check accepts, \<open>argv[3]\<close> is
  the terminating null pointer, and \<open>execv\<close> is called with it.
\<close>

theorem C9_process_wrapper_null_path:
  "process_wrapper_main (\<lambda>dir. True) (\<lambda>path args. True)
     [''process_wrapper'', ''/work'', ''/bin/target'']
   = ([SysChdir (Some ''/work''), SysExecv None []], Return 1)"
  by (simp add: process_wrapper_main_def argv_at_def)

subsection \<open>The order of the sandbox bindings\<close>

lemma tmpBindings_filter:
  "tmpBindings chrootDirFileInfo entries bindings =
     bindings @ map (\<lambda>entry. \<lparr>Source = ''/tmp'' @ Name entry, Target = [], Writable = ReadOnly\<rparr>)
                  (filter (is_tmp_subdir chrootDirFileInfo) entries)"
  by (induction entries arbitrary: bindings)
     (auto simp: is_tmp_subdir_def split: sum.splits)

text \<open>
  The binding of a subdirectory of \<open>/tmp\<close> gets the Source \<open>"/tmp" + entry.Name()\<close>,
  without a separator: for the subdirectory \<open>proj\<close> it is \<open>/tmpproj\<close>.
\<close>

lemma tmpBindings_Source_example:
  "tmpBindings 9 [\<lparr>Name = ''proj'', IsDir = True, Info = Inr 5\<rparr>] []
     = [\<lparr>Source = ''/tmpproj'', Target = [], Writable = ReadOnly\<rparr>]"
  by simp

text \<open>
  Claim C6, as stated: \<open>NewMinijail\<close> composes the bindings in exactly this order: one
  read-only binding per subdirectory of \<open>/tmp\<close>, the caller's bindings, \<open>/dev/null\<close> and
  \<open>/dev/urandom\<close> read-write, the working directory read-write, the target executable,
  the process wrapper. With a non-empty \<open>OutputDir\<close> the code puts one more binding,
  read-write for that directory, between \<open>/dev/urandom\<close> and the working directory.
\<close>

theorem C6_bindings_order_counterexample:
  "NewMinijail_bindings host_empty_tmp
     \<lparr>Args = [''/work/fuzz_test'', ''-runs=0''],
      Bindings = [\<lparr>Source = ''/build'', Target = [], Writable = ReadOnly\<rparr>],
      OutputDir = ''/out''\<rparr>
   = Inr [\<lparr>Source = ''/build'', Target = [], Writable = ReadOnly\<rparr>,
          \<lparr>Source = ''/dev/null'', Target = [], Writable = ReadWrite\<rparr>,
          \<lparr>Source = ''/dev/urandom'', Target = [], Writable = ReadWrite\<rparr>,
          \<lparr>Source = ''/out'', Target = [], Writable = ReadWrite\<rparr>,
          \<lparr>Source = ''/work'', Target = [], Writable = ReadWrite\<rparr>,
          \<lparr>Source = ''/work/fuzz_test'', Target = [], Writable = ReadOnly\<rparr>,
          \<lparr>Source = ''/opt/cifuzz/lib/process_wrapper'', Target = [], Writable = ReadOnly\<rparr>] \<and>
   NewMinijail_bindings host_empty_tmp
     \<lparr>Args = [''/work/fuzz_test'', ''-runs=0''],
      Bindings = [\<lparr>Source = ''/build'', Target = [], Writable = ReadOnly\<rparr>],
      OutputDir = ''/out''\<rparr>
   \<noteq> Inr ([\<lparr>Source = ''/build'', Target = [], Writable = ReadOnly\<rparr>] @
          [\<lparr>Source = ''/dev/null'', Target = [], Writable = ReadWrite\<rparr>,
           \<lparr>Source = ''/dev/urandom'', Target = [], Writable = ReadWrite\<rparr>] @
          [\<lparr>Source = ''/work'', Target = [], Writable = ReadWrite\<rparr>,
           \<lparr>Source = ''/work/fuzz_test'', Target = [], Writable = ReadOnly\<rparr>,
           \<lparr>Source = ''/opt/cifuzz/lib/process_wrapper'', Target = [], Writable = ReadOnly\<rparr>])"
  by (simp add: NewMinijail_bindings_def host_empty_tmp_def and_then_def
      check_def defaultBindings_def)

text \<open>
  Claim C6, amended: when \<open>NewMinijail\<close> gets as far as completing its bindings, they
  are, in this order: one read-only binding per subdirectory of host \<open>/tmp\<close> whose info
  can be read and that is not the chroot directory; the caller-supplied bindings;
  \<open>/dev/null\<close> and \<open>/dev/urandom\<close> read-write; the output directory read-write when
  \<open>OutputDir\<close> is not empty; the current working directory read-write; the target
  executable with its symlinks resolved; the process wrapper.
\<close>

theorem C6_bindings_order:
  assumes "NewMinijail_bindings h opts = Inr bindings"
  shows "\<exists>path chrootDir entries chrootDirFileInfo workdir processWrapperPath tmp.
     EvalSymlinks h (hd (Args opts)) = Inr path \<and>
     MkdirTemp h = Inr chrootDir \<and>
     ReadDir h ''/tmp'' = Inr entries \<and>
     Stat h chrootDir = Inr chrootDirFileInfo \<and>
     Getwd h = Inr workdir \<and>
     ProcessWrapperPath h = Inr processWrapperPath \<and>
     length tmp = length (filter (is_tmp_subdir chrootDirFileInfo) entries) \<and>
     list_all (\<lambda>b. Target b = [] \<and> Writable b = ReadOnly) tmp \<and>
     bindings =
       tmp @ Bindings opts @
       [\<lparr>Source = ''/dev/null'', Target = [], Writable = ReadWrite\<rparr>,
        \<lparr>Source = ''/dev/urandom'', Target = [], Writable = ReadWrite\<rparr>] @
       (if OutputDir opts = [] then []
        else [\<lparr>Source = OutputDir opts, Target = [], Writable = ReadWrite\<rparr>]) @
       [\<lparr>Source = workdir, Target = [], Writable = ReadWrite\<rparr>,
        \<lparr>Source = path, Target = [], Writable = ReadOnly\<rparr>,
        \<lparr>Source = processWrapperPath, Target = [], Writable = ReadOnly\<rparr>]"
proof -
  obtain arg0 args where a: "Args opts = arg0 # args"
    using assms by (cases "Args opts") (simp_all add: NewMinijail_bindings_def)
  obtain path where p: "EvalSymlinks h arg0 = Inr path"
    using assms a by (cases "EvalSymlinks h arg0") (simp_all add: NewMinijail_bindings_def and_then_def)
  obtain chrootDir where c: "MkdirTemp h = Inr chrootDir"
    using assms a p by (cases "MkdirTemp h") (simp_all add: NewMinijail_bindings_def and_then_def)
  have m: "MkdirAll h (filepath_Join [chrootDir, ''/proc'']) = None"
    "MkdirAll h (filepath_Join [chrootDir, ''/tmp'']) = None"
    "MkdirAll h (filepath_Join [chrootDir, ''dev'', ''shm'']) = None"
    using assms a p c
    by (auto simp: NewMinijail_bindings_def and_then_def check_def split: option.splits)
  note start = a p c m
  obtain minijailPath where j: "Minijail0Path h = Inr minijailPath"
    using assms start
    by (cases "Minijail0Path h") (simp_all add: NewMinijail_bindings_def and_then_def check_def)
  obtain entries where e: "ReadDir h ''/tmp'' = Inr entries"
    using assms start j
    by (cases "ReadDir h ''/tmp''") (simp_all add: NewMinijail_bindings_def and_then_def check_def)
  obtain chrootDirFileInfo where s: "Stat h chrootDir = Inr chrootDirFileInfo"
    using assms start j e
    by (cases "Stat h chrootDir") (simp_all add: NewMinijail_bindings_def and_then_def check_def)
  obtain workdir where w: "Getwd h = Inr workdir"
    using assms start j e s
    by (cases "Getwd h")
       (simp_all add: NewMinijail_bindings_def and_then_def check_def Let_def)
  obtain processWrapperPath where pw: "ProcessWrapperPath h = Inr processWrapperPath"
    using assms start j e s w
    by (cases "ProcessWrapperPath h")
       (simp_all add: NewMinijail_bindings_def and_then_def check_def Let_def)
  define tmp where
    "tmp = map (\<lambda>entry. \<lparr>Source = ''/tmp'' @ Name entry, Target = [], Writable = ReadOnly\<rparr>)
             (filter (is_tmp_subdir chrootDirFileInfo) entries)"
  have t: "tmpBindings chrootDirFileInfo entries [] = tmp"
    by (simp add: tmpBindings_filter tmp_def)
  have l: "length tmp = length (filter (is_tmp_subdir chrootDirFileInfo) entries)"
    by (simp add: tmp_def)
  have r: "list_all (\<lambda>b. Target b = [] \<and> Writable b = ReadOnly) tmp"
    by (simp add: tmp_def list_all_iff)
  have b: "bindings =
       tmp @ Bindings opts @
       [\<lparr>Source = ''/dev/null'', Target = [], Writable = ReadWrite\<rparr>,
        \<lparr>Source = ''/dev/urandom'', Target = [], Writable = ReadWrite\<rparr>] @
       (if OutputDir opts = [] then []
        else [\<lparr>Source = OutputDir opts, Target = [], Writable = ReadWrite\<rparr>]) @
       [\<lparr>Source = workdir, Target = [], Writable = ReadWrite\<rparr>,
        \<lparr>Source = path, Target = [], Writable = ReadOnly\<rparr>,
        \<lparr>Source = processWrapperPath, Target = [], Writable = ReadOnly\<rparr>]"
    using assms start j e s w pw t
    by (auto simp: NewMinijail_bindings_def and_then_def check_def Let_def defaultBindings_def)
  have "EvalSymlinks h (hd (Args opts)) = Inr path" using a p by simp
  then show ?thesis using c e s w pw l r b by blast
qed

theorem C6_bindings_order_witness:
  "NewMinijail_bindings host_with_tmp
     \<lparr>Args = [''/work/fuzz_test'', ''-runs=0''],
      Bindings = [\<lparr>Source = ''/build'', Target = [], Writable = ReadOnly\<rparr>],
      OutputDir = []\<rparr>
   = Inr [\<lparr>Source = ''/tmpproj'', Target = [], Writable = ReadOnly\<rparr>,
          \<lparr>Source = ''/build'', Target = [], Writable = ReadOnly\<rparr>,
          \<lparr>Source = ''/dev/null'', Target = [], Writable = ReadWrite\<rparr>,
          \<lparr>Source = ''/dev/urandom'', Target = [], Writable = ReadWrite\<rparr>,
          \<lparr>Source = ''/work'', Target = [], Writable = ReadWrite\<rparr>,
          \<lparr>Source = ''/work/fuzz_test'', Target = [], Writable = ReadOnly\<rparr>,
          \<lparr>Source = ''/opt/cifuzz/lib/process_wrapper'', Target = [], Writable = ReadOnly\<rparr>] \<and>
   (\<exists>tmp. length tmp = 1 \<and>
      list_all (\<lambda>b. Target b = [] \<and> Writable b = ReadOnly) tmp \<and>
      [\<lparr>Source = ''/tmpproj'', Target = [], Writable = ReadOnly\<rparr>,
       \<lparr>Source = ''/build'', Target = [], Writable = ReadOnly\<rparr>,
       \<lparr>Source = ''/dev/null'', Target = [], Writable = ReadWrite\<rparr>,
       \<lparr>Source = ''/dev/urandom'', Target = [], Writable = ReadWrite\<rparr>,
       \<lparr>Source = ''/work'', Target = [], Writable = ReadWrite\<rparr>,
       \<lparr>Source = ''/work/fuzz_test'', Target = [], Writable = ReadOnly\<rparr>,
       \<lparr>Source = ''/opt/cifuzz/lib/process_wrapper'', Target = [], Writable = ReadOnly\<rparr>]
      = tmp @
        [\<lparr>Source = ''/build'', Target = [], Writable = ReadOnly\<rparr>,
         \<lparr>Source = ''/dev/null'', Target = [], Writable = ReadWrite\<rparr>,
         \<lparr>Source = ''/dev/urandom'', Target = [], Writable = ReadWrite\<rparr>,
         \<lparr>Source = ''/work'', Target = [], Writable = ReadWrite\<rparr>,
         \<lparr>Source = ''/work/fuzz_test'', Target = [], Writable = ReadOnly\<rparr>,
         \<lparr>Source = ''/opt/cifuzz/lib/process_wrapper'', Target = [], Writable = ReadOnly\<rparr>])"
proof -
  define opts where "opts = \<lparr>Args = [''/work/fuzz_test'', ''-runs=0''],
      Bindings = [\<lparr>Source = ''/build'', Target = [], Writable = ReadOnly\<rparr>],
      OutputDir = []\<rparr>"
  define bs where "bs = [\<lparr>Source = ''/tmpproj'', Target = [], Writable = ReadOnly\<rparr>,
          \<lparr>Source = ''/build'', Target = [], Writable = ReadOnly\<rparr>,
          \<lparr>Source = ''/dev/null'', Target = [], Writable = ReadWrite\<rparr>,
          \<lparr>Source = ''/dev/urandom'', Target = [], Writable = ReadWrite\<rparr>,
          \<lparr>Source = ''/work'', Target = [], Writable = ReadWrite\<rparr>,
          \<lparr>Source = ''/work/fuzz_test'', Target = [], Writable = ReadOnly\<rparr>,
          \<lparr>Source = ''/opt/cifuzz/lib/process_wrapper'', Target = [], Writable = ReadOnly\<rparr>]"
  have h: "NewMinijail_bindings host_with_tmp opts = Inr bs"
    by (simp add: NewMinijail_bindings_def host_with_tmp_def host_empty_tmp_def and_then_def
        check_def defaultBindings_def opts_def bs_def)
  have host:
    "EvalSymlinks host_with_tmp (hd (Args opts)) = Inr ''/work/fuzz_test''"
    "ReadDir host_with_tmp ''/tmp'' =
       Inr [\<lparr>Name = ''minijail-chroot-1'', IsDir = True, Info = Inr 9\<rparr>,
            \<lparr>Name = ''pidfile'', IsDir = False, Info = Inr 4\<rparr>,
            \<lparr>Name = ''proj'', IsDir = True, Info = Inr 5\<rparr>]"
    "\<And>p. Stat host_with_tmp p = Inr 9"
    "Getwd host_with_tmp = Inr ''/work''"
    "ProcessWrapperPath host_with_tmp = Inr ''/opt/cifuzz/lib/process_wrapper''"
    by (simp_all add: host_with_tmp_def host_empty_tmp_def opts_def)
  have o: "Bindings opts = [\<lparr>Source = ''/build'', Target = [], Writable = ReadOnly\<rparr>]"
    "OutputDir opts = []"
    by (simp_all add: opts_def)
  have "\<exists>tmp. length tmp = 1 \<and>
      list_all (\<lambda>b. Target b = [] \<and> Writable b = ReadOnly) tmp \<and>
      bs = tmp @
        [\<lparr>Source = ''/build'', Target = [], Writable = ReadOnly\<rparr>,
         \<lparr>Source = ''/dev/null'', Target = [], Writable = ReadWrite\<rparr>,
         \<lparr>Source = ''/dev/urandom'', Target = [], Writable = ReadWrite\<rparr>,
         \<lparr>Source = ''/work'', Target = [], Writable = ReadWrite\<rparr>,
         \<lparr>Source = ''/work/fuzz_test'', Target = [], Writable = ReadOnly\<rparr>,
         \<lparr>Source = ''/opt/cifuzz/lib/process_wrapper'', Target = [], Writable = ReadOnly\<rparr>]"
    using C6_bindings_order [OF h] unfolding host o
    by (simp add: is_tmp_subdir_def)
  then show ?thesis using h unfolding opts_def bs_def by simp
qed

subsection \<open>The paths returned by the Maven adapter\<close>

text \<open>
  Whatever \<open>mvn\<close> prints for \<open>project.build.directory\<close> is the \<open>BuildDir\<close> of the
  result, byte for byte.
\<close>

lemma maven_Build_BuildDir_verbatim:
  assumes "maven_Build w projectDir parallel targetClass = Inr r"
  shows "run_mvn w [''help:evaluate'', ''-Dexpression=project.build.directory'', ''--quiet'',
                    ''-DforceStdout''] = Inr (Result_BuildDir r)"
  using assms
  by (auto simp: maven_Build_def GetBuildDirectory_def and_then_def Let_def split: sum.splits)


text \<open>
  \<open>TrimSpace\<close> removes white space of ASCII and beyond (here U+00A0, U+2003, U+0085
  and U+3000) at both ends, and keeps bytes that are not a complete encoding.
\<close>

lemma TrimSpace_examples:
  "TrimSpace ([CHR 0xC2, CHR 0xA0, CHR 0x20] @ ''a b'' @
              [CHR 0x0A, CHR 0xE2, CHR 0x80, CHR 0x83, CHR 0xC2, CHR 0x85]) = ''a b'' \<and>
   TrimSpace [CHR 0x20, CHR 0xE3, CHR 0x80, CHR 0x80] = [] \<and>
   TrimSpace (''x'' @ [CHR 0x80, CHR 0x85]) = ''x'' @ [CHR 0x80, CHR 0x85] \<and>
   TrimSpace ([CHR 0xE2, CHR 0x80] @ ''x'') = [CHR 0xE2, CHR 0x80] @ ''x''"
  by (simp add: TrimSpace_def space_runes_def trim_runes.simps HasPrefix_def)

text \<open>
  Claim C7: every path field of the result of \<open>Build\<close> is absolute and symlink-free; in
  particular the Maven adapter canonicalizes the build directory that \<open>mvn\<close> prints and
  the classpath entries that it reads from the dependency file. The Maven adapter returns
  both as it gets them: on a host where the local repository and the configured build
  directory are reached through symbolic links, \<open>BuildDir\<close> and the \<open>RuntimeDeps\<close> are
  not symlink-free. (The CMake adapter passes the corresponding paths through
  \<open>fileutil.CanonicalPath\<close>.)
\<close>

theorem C7_maven_Build_not_canonical:
  "maven_Build symlinked_world ''/home/u/proj'' \<lparr>Enabled = False, NumJobs = 0\<rparr>
       ''com.example.FuzzTestCase''
     = Inr \<lparr>Result_Name = ''com.example.FuzzTestCase'',
            Result_BuildDir = ''/home/u/build/proj'',
            Result_ProjectDir = ''/home/u/proj'',
            Result_GeneratedCorpus = ''/home/u/proj/.cifuzz-corpus/com.example.FuzzTestCase'',
            Result_SeedCorpus = ''/home/u/proj/src/test/resources/com.example.FuzzTestCaseInputs'',
            Result_RuntimeDeps =
              [''/home/u/.m2/repository/jazzer.jar'', ''/home/u/.m2/repository/junit.jar'',
               ''/home/u/build/proj/classes'', ''/home/u/build/proj/test-classes'',
               ''/home/u/proj/src/main/resources'', ''/home/u/proj/src/test/resources'']\<rparr> \<and>
   \<not> symlink_free symlinked_links ''/home/u/build/proj'' \<and>
   \<not> symlink_free symlinked_links ''/home/u/.m2/repository/jazzer.jar''"
proof -
  have trimmed:
    "TrimSpace (''/home/u/.m2/repository/jazzer.jar:/home/u/.m2/repository/junit.jar'' @ [CHR 0x0A])
       = ''/home/u/.m2/repository/jazzer.jar:/home/u/.m2/repository/junit.jar''"
    by (simp add: TrimSpace_def space_runes_def trim_runes.simps HasPrefix_def)
  have deps: "getExternalDependencies symlinked_world
       = Inr [''/home/u/.m2/repository/jazzer.jar'', ''/home/u/.m2/repository/junit.jar'']"
    unfolding getExternalDependencies_def
    by (simp add: runMaven_def and_then_def symlinked_world_def trimmed [simplified]
        Clean_def clean_step_def)
  have localDeps: "getLocalDependencies symlinked_world
       = Inr [''/home/u/build/proj/classes'', ''/home/u/build/proj/test-classes'',
              ''/home/u/proj/src/main/resources'', ''/home/u/proj/src/test/resources'']"
    by (simp add: getLocalDependencies_def runMaven_def and_then_def symlinked_world_def)
  have buildDir: "GetBuildDirectory symlinked_world ''/home/u/proj'' = Inr ''/home/u/build/proj''"
    by (simp add: GetBuildDirectory_def symlinked_world_def)
  have compile: "runMaven symlinked_world [''test-compile''] = Inr []"
    by (simp add: runMaven_def symlinked_world_def)
  have corpora:
    "JazzerSeedCorpus symlinked_world ''com.example.FuzzTestCase'' ''/home/u/proj''
       = ''/home/u/proj/src/test/resources/com.example.FuzzTestCaseInputs''"
    "JazzerGeneratedCorpus symlinked_world ''com.example.FuzzTestCase'' ''/home/u/proj''
       = ''/home/u/proj/.cifuzz-corpus/com.example.FuzzTestCase''"
    by (simp_all add: symlinked_world_def)
  have links:
    "\<not> symlink_free symlinked_links ''/home/u/build/proj''"
    "\<not> symlink_free symlinked_links ''/home/u/.m2/repository/jazzer.jar''"
    by (simp_all add: symlink_free_def symlinked_links_def HasPrefix_def)
  show ?thesis
    using links
    by (simp add: maven_Build_def and_then_def compile deps localDeps buildDir corpora)
qed

end
